theory Spec2Isabelle
  imports Complex_Main
begin

section \<open>Numbers, vectors and quaternions\<close>

text \<open>
  The page script \<^verbatim>\<open>script.js\<close> has two parts: an intersection observer that switches the
  page background, and a field of rolling cubes drawn with the three.js library.

  JavaScript numbers are modelled as \<^typ>\<open>real\<close>; \<^verbatim>\<open>Math.PI\<close> is \<^term>\<open>pi\<close>, \<^verbatim>\<open>Math.sin\<close> and
  \<^verbatim>\<open>Math.cos\<close> are \<^term>\<open>sin\<close> and \<^term>\<open>cos\<close>. Sums, differences and the quaternion
  arithmetic are exact in the model: on lattice positions (small integers and halves) the
  doubles of the script are exact too, on the trigonometric values they are not, so a
  statement about an orientation holds of the script up to the rounding of doubles.

  Where the script multiplies with a random value, the rounding is part of the model,
  since \<^verbatim>\<open>Math.floor\<close> makes the spawn position depend on it: \<open>fl a\<close> is the double nearest to
  \<open>a\<close>, with ties going to the even significand (53 bits; overflow and subnormal numbers do
  not occur at the magnitudes of the script).

  \<^verbatim>\<open>Math.random()\<close> is modelled by a random source \<open>r :: nat \<Rightarrow> real\<close> together with the
  number \<open>i\<close> of values drawn so far: a call returns \<open>r i\<close> and advances the count by one.
  The library promises a double in [0, 1), the largest of which is \<open>1 - 1 / 2 ^ 53\<close>; this
  is the predicate \<open>valid_random\<close> below.
\<close>

type_synonym random_source = "nat \<Rightarrow> real"

definition valid_random :: "random_source \<Rightarrow> bool" where
  "valid_random r \<longleftrightarrow> (\<forall>i. 0 \<le> r i \<and> r i \<le> 1 - 1 / 2 ^ 53)"

definition Math_floor :: "real \<Rightarrow> real" where
  "Math_floor a = of_int \<lfloor>a\<rfloor>"

text \<open>Rounding to the nearest integer, ties to even; the binary exponent of a number; and
  rounding to the nearest double.\<close>

definition round_even :: "real \<Rightarrow> int" where
  "round_even y =
     (let f = \<lfloor>y\<rfloor>; d = y - of_int f
      in if d < 1 / 2 then f else if 1 / 2 < d then f + 1 else if even f then f else f + 1)"

definition binade :: "real \<Rightarrow> int" where
  "binade a = \<lfloor>log 2 \<bar>a\<bar>\<rfloor>"

definition fl :: "real \<Rightarrow> real" where
  "fl a = (if a = 0 then 0
           else let u = 2 powr (of_int (binade a) - 52) in u * of_int (round_even (a / u)))"

datatype js_error = TypeError

text \<open>
  The classes \<^verbatim>\<open>THREE.Vector3\<close> and \<^verbatim>\<open>THREE.Quaternion\<close> of three.js, with the methods the
  script calls. The library is a dependency of the page and not part of its source; the
  definitions below transcribe the library's methods of the same names. A method that
  mutates \<^verbatim>\<open>this\<close> returns the new value here, and \<^verbatim>\<open>clone\<close>/\<^verbatim>\<open>copy\<close> are the identity on
  values.
\<close>

datatype Vector3 = Vector3 (vx: real) (vy: real) (vz: real)

datatype Quaternion = Quaternion (qx: real) (qy: real) (qz: real) (qw: real)

fun add :: "Vector3 \<Rightarrow> Vector3 \<Rightarrow> Vector3" where
  "add (Vector3 a b c) (Vector3 a' b' c') = Vector3 (a + a') (b + b') (c + c')"

fun sub :: "Vector3 \<Rightarrow> Vector3 \<Rightarrow> Vector3" where
  "sub (Vector3 a b c) (Vector3 a' b' c') = Vector3 (a - a') (b - b') (c - c')"

fun multiplyScalar :: "Vector3 \<Rightarrow> real \<Rightarrow> Vector3" where
  "multiplyScalar (Vector3 a b c) s = Vector3 (a * s) (b * s) (c * s)"

text \<open>\<^verbatim>\<open>setFromAxisAngle(axis, angle)\<close>: the axis is taken to be normalised.\<close>

fun setFromAxisAngle :: "Vector3 \<Rightarrow> real \<Rightarrow> Quaternion" where
  "setFromAxisAngle (Vector3 a b c) angle =
     (let halfAngle = angle / 2; s = sin halfAngle
      in Quaternion (a * s) (b * s) (c * s) (cos halfAngle))"

text \<open>\<^verbatim>\<open>multiplyQuaternions(a, b)\<close>, and \<^verbatim>\<open>this.premultiply(q)\<close>, which is
  \<^verbatim>\<open>this.multiplyQuaternions(q, this)\<close>.\<close>

fun multiplyQuaternions :: "Quaternion \<Rightarrow> Quaternion \<Rightarrow> Quaternion" where
  "multiplyQuaternions (Quaternion qax qay qaz qaw) (Quaternion qbx qby qbz qbw) =
     Quaternion (qax * qbw + qaw * qbx + qay * qbz - qaz * qby)
                (qay * qbw + qaw * qby + qaz * qbx - qax * qbz)
                (qaz * qbw + qaw * qbz + qax * qby - qay * qbx)
                (qaw * qbw - qax * qbx - qay * qby - qaz * qbz)"

definition premultiply :: "Quaternion \<Rightarrow> Quaternion \<Rightarrow> Quaternion" where
  "premultiply this q = multiplyQuaternions q this"

text \<open>\<^verbatim>\<open>v.applyQuaternion(q)\<close>: \<open>v + q.w * t + cross(q.xyz, t)\<close> with
  \<open>t = 2 * cross(q.xyz, v)\<close>; and \<^verbatim>\<open>v.applyAxisAngle(axis, angle)\<close>, which applies
  \<^verbatim>\<open>setFromAxisAngle(axis, angle)\<close>.\<close>

fun applyQuaternion :: "Vector3 \<Rightarrow> Quaternion \<Rightarrow> Vector3" where
  "applyQuaternion (Vector3 a b c) (Quaternion x y z w) =
     (let tx = 2 * (y * c - z * b);
          ty = 2 * (z * a - x * c);
          tz = 2 * (x * b - y * a)
      in Vector3 (a + w * tx + y * tz - z * ty)
                 (b + w * ty + z * tx - x * tz)
                 (c + w * tz + x * ty - y * tx))"

definition applyAxisAngle :: "Vector3 \<Rightarrow> Vector3 \<Rightarrow> real \<Rightarrow> Vector3" where
  "applyAxisAngle v axis angle = applyQuaternion v (setFromAxisAngle axis angle)"

text \<open>\<^verbatim>\<open>setFromEuler\<close> for the default order \<^verbatim>\<open>'XYZ'\<close>. Assigning to \<^verbatim>\<open>mesh.rotation\<close>
  makes the library recompute \<^verbatim>\<open>mesh.quaternion\<close> with it.\<close>

definition setFromEuler :: "real \<Rightarrow> real \<Rightarrow> real \<Rightarrow> Quaternion" where
  "setFromEuler ex ey ez =
     (let c1 = cos (ex / 2); c2 = cos (ey / 2); c3 = cos (ez / 2);
          s1 = sin (ex / 2); s2 = sin (ey / 2); s3 = sin (ez / 2)
      in Quaternion (s1 * c2 * c3 + c1 * s2 * s3)
                    (c1 * s2 * c3 - s1 * c2 * s3)
                    (c1 * c2 * s3 + s1 * s2 * c3)
                    (c1 * c2 * c3 - s1 * s2 * s3))"

section \<open>Background change on scroll\<close>

text \<open>
  An \<^verbatim>\<open>IntersectionObserverEntry\<close> as the callback reads it: the flag \<^verbatim>\<open>isIntersecting\<close> and
  the \<^verbatim>\<open>data-color\<close> attribute of the target (\<^verbatim>\<open>getAttribute\<close> gives \<^verbatim>\<open>null\<close>, here \<open>None\<close>,
  when the attribute is absent). The page state is the value last assigned to
  \<^verbatim>\<open>body.style.backgroundColor\<close>.
\<close>

record entry =
  isIntersecting :: bool
  data_color :: "string option"

record page =
  backgroundColor :: "string option"

definition threshold :: real where
  "threshold = 4 / 10"

text \<open>
  The host's side of the observer is not part of the script. Following the Intersection
  Observer interface, the host queues an entry for a target when its visible fraction
  moves across the threshold or starts or stops being positive, and the entry's
  \<^verbatim>\<open>isIntersecting\<close> tells whether the target is visible at all. \<open>observe prev new c\<close> is
  the list of entries queued for one region with colour attribute \<open>c\<close> whose visible
  fraction went from \<open>prev\<close> to \<open>new\<close>.
\<close>

definition observe :: "real \<Rightarrow> real \<Rightarrow> string option \<Rightarrow> entry list" where
  "observe prev new c =
     (if (threshold \<le> prev) \<noteq> (threshold \<le> new) \<or> (0 < prev) \<noteq> (0 < new)
      then [\<lparr>isIntersecting = 0 < new, data_color = c\<rparr>] else [])"

definition on_entry :: "page \<Rightarrow> entry \<Rightarrow> page" where
  "on_entry body e =
     (if isIntersecting e then body\<lparr>backgroundColor := data_color e\<rparr> else body)"

definition observer_callback :: "entry list \<Rightarrow> page \<Rightarrow> page" where
  "observer_callback entries body = foldl on_entry body entries"

section \<open>The rolling voxels\<close>

subsection \<open>Settings\<close>

definition moveSpeed :: real where "moveSpeed = 6 / 100"
definition maxWaitTime :: real where "maxWaitTime = 4000"
definition spawnRange :: real where "spawnRange = 90"
definition colors :: "nat list" where "colors = [0xFFC72C, 0x3b82f6, 0xffffff]"

subsection \<open>State of one voxel\<close>

text \<open>
  The fields \<^verbatim>\<open>rollProgress\<close>, \<^verbatim>\<open>direction\<close>, \<^verbatim>\<open>axis\<close>, \<^verbatim>\<open>pivot\<close>, \<^verbatim>\<open>startPosition\<close> and
  \<^verbatim>\<open>startQuaternion\<close> do not exist on a new object: \<^verbatim>\<open>startRoll\<close> assigns all six, and nothing
  else assigns any of them apart from \<^verbatim>\<open>rollProgress\<close>, which \<^verbatim>\<open>animateRoll\<close> increments. They
  are grouped in the record \<open>roll\<close>, and the voxel holds \<open>None\<close> until the first
  \<^verbatim>\<open>startRoll\<close>. The mesh keeps the position, the quaternion and the material colour
  (\<open>None\<close> when the palette lookup gave \<^verbatim>\<open>undefined\<close>).
\<close>

record mesh =
  position :: Vector3
  quaternion :: Quaternion
  color :: "nat option"

record roll =
  rollProgress :: real
  direction :: Vector3
  axis :: Vector3
  pivot :: Vector3
  startPosition :: Vector3
  startQuaternion :: Quaternion

record voxel =
  sizeV :: real
  mesh :: mesh
  isMoving :: bool
  waitTimer :: real
  roll :: "roll option"

type_synonym vstate = "voxel \<times> nat"

subsection \<open>reset\<close>

text \<open>
  The arguments of \<^verbatim>\<open>position.set\<close> are evaluated left to right, so the x coordinate takes
  the first random value, z the second, and the wait timer the third. The difference
  \<open>u - 0.5\<close> and the products are rounded to doubles as the script computes them.
\<close>

definition reset :: "random_source \<Rightarrow> vstate \<Rightarrow> vstate" where
  "reset r s =
     (case s of (v, i) \<Rightarrow>
        let r0 = spawnRange;
            m = (mesh v)\<lparr>position := Vector3 (Math_floor (fl (fl (r i - 0.5) * r0))) 0
                                               (Math_floor (fl (fl (r (i + 1) - 0.5) * r0))),
                         quaternion := setFromEuler 0 0 0\<rparr>
        in (v\<lparr>mesh := m, waitTimer := fl (r (i + 2) * maxWaitTime), isMoving := False\<rparr>,
            i + 3))"

subsection \<open>The constructor\<close>

text \<open>Reading an array at an index: \<open>None\<close> stands for \<^verbatim>\<open>undefined\<close>, the result outside
  the array.\<close>

definition nth_opt :: "'a list \<Rightarrow> int \<Rightarrow> 'a option" where
  "nth_opt xs k = (if 0 \<le> k \<and> k < int (length xs) then Some (xs ! nat k) else None)"

text \<open>
  A new mesh sits at the origin with the identity quaternion. \<^verbatim>\<open>waitTimer\<close> is not assigned
  before \<^verbatim>\<open>reset\<close> runs; the record carries 0 until then.

  three.js gives every geometry, material and mesh an identifier made from four calls of
  \<^verbatim>\<open>Math.random\<close>. The constructor therefore draws four values for the \<^verbatim>\<open>BoxGeometry\<close>, then the
  value that selects the colour (the argument of the material's constructor is evaluated
  before that constructor runs), four for the material and four for the mesh, and then
  \<^verbatim>\<open>reset\<close> draws its three: sixteen in all. The identifiers are not part of the state.
\<close>

definition RollingVoxel :: "random_source \<Rightarrow> nat \<Rightarrow> vstate" where
  "RollingVoxel r i =
     (let c = nth_opt colors \<lfloor>fl (r (i + 4) * real (length colors))\<rfloor>;
          m = \<lparr>position = Vector3 0 0 0, quaternion = Quaternion 0 0 0 1, color = c\<rparr>;
          v = \<lparr>sizeV = 1, mesh = m, isMoving = False, waitTimer = 0, roll = None\<rparr>
      in reset r (v, i + 13))"

subsection \<open>startRoll\<close>

definition dirs :: "(Vector3 \<times> Vector3) list" where
  "dirs = [(Vector3 1 0 0, Vector3 0 0 (-1)),
           (Vector3 (-1) 0 0, Vector3 0 0 1),
           (Vector3 0 0 1, Vector3 1 0 0),
           (Vector3 0 0 (-1), Vector3 (-1) 0 0)]"

text \<open>
  An index outside the table gives \<^verbatim>\<open>undefined\<close> in JavaScript, and reading \<^verbatim>\<open>move.vec\<close>
  then throws a \<^verbatim>\<open>TypeError\<close>. The product of a double below 1 with 4 is a double, so no
  rounding occurs in the index.
\<close>

definition startRoll :: "random_source \<Rightarrow> vstate \<Rightarrow> js_error + vstate" where
  "startRoll r s =
     (case s of (v, i) \<Rightarrow>
        (case nth_opt dirs \<lfloor>r i * 4\<rfloor> of
           None \<Rightarrow> Inl TypeError
         | Some (vec, ax) \<Rightarrow>
             Inr (v\<lparr>isMoving := True,
                    roll := Some \<lparr>rollProgress = 0, direction = vec, axis = ax,
                       pivot = add (add (position (mesh v)) (multiplyScalar vec (sizeV v / 2)))
                                   (Vector3 0 (- sizeV v / 2) 0),
                       startPosition = position (mesh v),
                       startQuaternion = quaternion (mesh v)\<rparr>\<rparr>, i + 1)))"

subsection \<open>animateRoll\<close>

text \<open>The end step (the branch \<^verbatim>\<open>rollProgress >= 1\<close> up to the new wait time): perfect
  snapping.\<close>

definition endStep :: "random_source \<Rightarrow> roll \<Rightarrow> vstate \<Rightarrow> vstate" where
  "endStep r rl s =
     (case s of (v, i) \<Rightarrow>
        let endRotation = setFromAxisAngle (axis rl) (pi / 2);
            m = (mesh v)\<lparr>position := add (startPosition rl) (direction rl),
                         quaternion := premultiply (startQuaternion rl) endRotation\<rparr>
        in (v\<lparr>isMoving := False, mesh := m, waitTimer := fl (r i * maxWaitTime)\<rparr>, i + 1))"

text \<open>The despawn check that ends the same branch.\<close>

definition despawnCheck :: "random_source \<Rightarrow> vstate \<Rightarrow> vstate" where
  "despawnCheck r s =
     (case s of (v, i) \<Rightarrow>
        if \<bar>vx (position (mesh v))\<bar> > spawnRange \<or> \<bar>vz (position (mesh v))\<bar> > spawnRange
        then reset r s else s)"

text \<open>The rolling math (the \<^verbatim>\<open>else\<close> branch).\<close>

definition rollAngle :: "real \<Rightarrow> real" where
  "rollAngle progress = (pi / 2) * progress"

definition rollingMath :: "roll \<Rightarrow> voxel \<Rightarrow> voxel" where
  "rollingMath rl v =
     (let angle = rollAngle (rollProgress rl);
          p = add (applyAxisAngle (sub (startPosition rl) (pivot rl)) (axis rl) angle) (pivot rl);
          stepRotation = setFromAxisAngle (axis rl) angle
      in v\<lparr>mesh := (mesh v)\<lparr>position := p,
                             quaternion := premultiply (startQuaternion rl) stepRotation\<rparr>\<rparr>)"

text \<open>
  On a voxel that never started a roll, \<^verbatim>\<open>rollProgress\<close> becomes \<^verbatim>\<open>NaN\<close>, the comparison
  with 1 fails, and \<^verbatim>\<open>position.copy(undefined)\<close> throws a \<^verbatim>\<open>TypeError\<close>.
\<close>

definition animateRoll :: "random_source \<Rightarrow> vstate \<Rightarrow> js_error + vstate" where
  "animateRoll r s =
     (case s of (v, i) \<Rightarrow>
        (case roll v of
           None \<Rightarrow> Inl TypeError
         | Some rl0 \<Rightarrow>
             let rl = rl0\<lparr>rollProgress := rollProgress rl0 + moveSpeed\<rparr>;
                 v1 = v\<lparr>roll := Some rl\<rparr>
             in if rollProgress rl \<ge> 1
                then Inr (despawnCheck r (endStep r rl (v1, i)))
                else Inr (rollingMath rl v1, i)))"

subsection \<open>step\<close>

definition step :: "random_source \<Rightarrow> real \<Rightarrow> vstate \<Rightarrow> js_error + vstate" where
  "step r deltaTime s =
     (case s of (v, i) \<Rightarrow>
        if isMoving v then animateRoll r s
        else let v1 = v\<lparr>waitTimer := waitTimer v - deltaTime\<rparr>
             in if waitTimer v1 \<le> 0 then startRoll r (v1, i) else Inr (v1, i))"

text \<open>Calling \<^verbatim>\<open>step\<close> once for each element of a list of time deltas, in order. An
  exception ends the run.\<close>

fun steps :: "random_source \<Rightarrow> real list \<Rightarrow> vstate \<Rightarrow> js_error + vstate" where
  "steps r [] s = Inr s"
| "steps r (d # ds) s = (case step r d s of Inl e \<Rightarrow> Inl e | Inr s' \<Rightarrow> steps r ds s')"

subsection \<open>The animation loop\<close>




section \<open>Notions used in the statements\<close>

text \<open>The roll data carries one of the four rows of the table \<^verbatim>\<open>dirs\<close>.\<close>

definition in_dirs :: "roll \<Rightarrow> bool" where
  "in_dirs rl \<longleftrightarrow> (direction rl, axis rl) \<in> set dirs"

text \<open>The roll data after \<^verbatim>\<open>this.rollProgress += SETTINGS.moveSpeed\<close>.\<close>

definition advance :: "roll \<Rightarrow> roll" where
  "advance rl = rl\<lparr>rollProgress := rollProgress rl + moveSpeed\<rparr>"

text \<open>Concrete states for the examples: a new voxel object before \<^verbatim>\<open>reset\<close>, and a voxel
  at the last frame of a roll from (4, 0, 2) to the right.\<close>

definition voxel0 :: voxel where
  "voxel0 = \<lparr>sizeV = 1,
             mesh = \<lparr>position = Vector3 0 0 0, quaternion = Quaternion 0 0 0 1, color = None\<rparr>,
             isMoving = False, waitTimer = 0, roll = None\<rparr>"

definition roll_right :: "real \<Rightarrow> roll" where
  "roll_right p = \<lparr>rollProgress = p, direction = Vector3 1 0 0, axis = Vector3 0 0 (-1),
                   pivot = Vector3 (9 / 2) (- 1 / 2) 2, startPosition = Vector3 4 0 2,
                   startQuaternion = Quaternion 0 0 0 1\<rparr>"


text \<open>\<open>v'\<close> differs from \<open>v\<close> at most in the mesh's position and quaternion and in the
  roll data.\<close>

definition pose_only :: "voxel \<Rightarrow> voxel \<Rightarrow> bool" where
  "pose_only v v' \<longleftrightarrow>
     v' = v\<lparr>mesh := (mesh v)\<lparr>position := position (mesh v'),
                               quaternion := quaternion (mesh v')\<rparr>,
            roll := roll v'\<rparr>"

text \<open>The roll data that \<^verbatim>\<open>startRoll\<close> stores for the table row \<open>(vec, ax)\<close>, at progress \<open>p\<close>.\<close>

definition started :: "voxel \<Rightarrow> Vector3 \<Rightarrow> Vector3 \<Rightarrow> real \<Rightarrow> roll" where
  "started v vec ax p =
     \<lparr>rollProgress = p, direction = vec, axis = ax,
      pivot = add (add (position (mesh v)) (multiplyScalar vec (sizeV v / 2)))
                  (Vector3 0 (- sizeV v / 2) 0),
      startPosition = position (mesh v), startQuaternion = quaternion (mesh v)\<rparr>"

text \<open>The voxel \<open>v\<close> after a whole roll along \<open>vec\<close> that started with \<open>i\<close> random values
  drawn: the state the end step leaves, before the despawn check.\<close>

definition snapped :: "random_source \<Rightarrow> voxel \<Rightarrow> nat \<Rightarrow> Vector3 \<Rightarrow> Vector3 \<Rightarrow> voxel" where
  "snapped r v i vec ax =
     v\<lparr>mesh := (mesh v)\<lparr>position := add (position (mesh v)) vec,
                          quaternion := multiplyQuaternions (setFromAxisAngle ax (pi / 2))
                                          (quaternion (mesh v))\<rparr>,
       isMoving := False,
       waitTimer := fl (r (i + 1) * maxWaitTime),
       roll := Some (started v vec ax (17 * moveSpeed))\<rparr>"

text \<open>A value of \<^verbatim>\<open>Math.random\<close> at which the product \<open>(u - 0.5) * 90\<close> lies exactly half-way
  between two doubles, just below 23.\<close>

definition u_tie :: real where
  "u_tie = 3402719718457708 / 2 ^ 52"

definition source_tie :: random_source where
  "source_tie j = (if j = 0 then u_tie else 3 / 4)"

text \<open>A waiting voxel at a given position, about to start a roll.\<close>

definition voxel_idle_at :: "Vector3 \<Rightarrow> voxel" where
  "voxel_idle_at p = \<lparr>sizeV = 1,
             mesh = \<lparr>position = p, quaternion = Quaternion 0 0 0 1, color = None\<rparr>,
             isMoving = False, waitTimer = 0, roll = None\<rparr>"

text \<open>A position is on the lattice when its three coordinates are integers.\<close>

definition is_integer :: "real \<Rightarrow> bool" where
  "is_integer a \<longleftrightarrow> a \<in> \<int>"

definition lattice :: "Vector3 \<Rightarrow> bool" where
  "lattice p \<longleftrightarrow> is_integer (vx p) \<and> is_integer (vy p) \<and> is_integer (vz p)"

text \<open>The condition of the despawn check.\<close>

definition out_of_range :: "Vector3 \<Rightarrow> bool" where
  "out_of_range p \<longleftrightarrow> \<bar>vx p\<bar> > spawnRange \<or> \<bar>vz p\<bar> > spawnRange"

text \<open>A voxel at the last frame of a roll from (90, 0, 0) to the right, which ends outside
  the spawn range.\<close>

definition roll_edge :: roll where
  "roll_edge = \<lparr>rollProgress = 96 / 100, direction = Vector3 1 0 0, axis = Vector3 0 0 (-1),
                pivot = Vector3 (181 / 2) (- 1 / 2) 0, startPosition = Vector3 90 0 0,
                startQuaternion = Quaternion 0 0 0 1\<rparr>"

definition voxel_edge :: voxel where
  "voxel_edge = \<lparr>sizeV = 1,
             mesh = \<lparr>position = Vector3 90 0 0, quaternion = Quaternion 0 0 0 1, color = None\<rparr>,
             isMoving = True, waitTimer = 0, roll = Some roll_edge\<rparr>"


text \<open>Two random sources yield the same values from the \<open>i\<close>-th draw up to, not including,
  the \<open>i'\<close>-th.\<close>

definition agree :: "random_source \<Rightarrow> random_source \<Rightarrow> nat \<Rightarrow> nat \<Rightarrow> bool" where
  "agree r1 r2 i i' \<longleftrightarrow> (\<forall>j. i \<le> j \<and> j < i' \<longrightarrow> r2 j = r1 j)"

text \<open>Two random sources that differ from the third value on.\<close>

definition source_a :: random_source where
  "source_a j = (if j < 2 then 0 else 1 / 2)"

definition source_b :: random_source where
  "source_b j = (if j < 2 then 0 else 3 / 4)"

text \<open>The squared length of a quaternion, and the conjugation of a vector by a quaternion
  written out as a matrix product; \<^verbatim>\<open>applyQuaternion\<close> agrees with it on quaternions of
  length 1.\<close>

definition norm2 :: "Quaternion \<Rightarrow> real" where
  "norm2 q = qx q * qx q + qy q * qy q + qz q * qz q + qw q * qw q"

fun conj_by :: "Vector3 \<Rightarrow> Quaternion \<Rightarrow> Vector3" where
  "conj_by (Vector3 a b c) (Quaternion x y z w) =
     Vector3 ((w*w + x*x - y*y - z*z) * a + 2 * (x*y - w*z) * b + 2 * (x*z + w*y) * c)
             (2 * (x*y + w*z) * a + (w*w - x*x + y*y - z*z) * b + 2 * (y*z - w*x) * c)
             (2 * (x*z - w*y) * a + 2 * (y*z + w*x) * b + (w*w - x*x - y*y + z*z) * c)"

text \<open>An orientation that is a multiple of 90 degrees about one world axis: the quaternion
  of the angle \<open>k * \<pi>/2\<close> about the x, y or z axis, for an integer \<open>k\<close>.\<close>

definition world_axes :: "Vector3 list" where
  "world_axes = [Vector3 1 0 0, Vector3 0 1 0, Vector3 0 0 1]"

definition world_axis_turn :: "Quaternion \<Rightarrow> bool" where
  "world_axis_turn q \<longleftrightarrow>
     (\<exists>e \<in> set world_axes. \<exists>k::int. q = setFromAxisAngle e (of_int k * (pi / 2)))"

text \<open>The quaternion of one quarter turn about an axis of the table \<^verbatim>\<open>dirs\<close>, as the end
  step computes it, and the orientations obtained from the identity by multiplying such
  quaternions onto it with the script's quaternion product.\<close>

definition quarter_turn :: "Quaternion \<Rightarrow> bool" where
  "quarter_turn g \<longleftrightarrow> (\<exists>(vec, ax) \<in> set dirs. g = setFromAxisAngle ax (pi / 2))"

fun compose :: "Quaternion list \<Rightarrow> Quaternion" where
  "compose [] = Quaternion 0 0 0 1"
| "compose (g # gs) = multiplyQuaternions g (compose gs)"

definition quarter_turns :: "Quaternion \<Rightarrow> bool" where
  "quarter_turns q \<longleftrightarrow> (\<exists>gs. list_all quarter_turn gs \<and> q = compose gs)"

text \<open>The invariant of a voxel: at rest it is on the lattice with an orientation obtained
  by quarter turns; while rolling, the stored start position and start orientation are so.\<close>

definition rest_inv :: "Vector3 \<Rightarrow> Quaternion \<Rightarrow> bool" where
  "rest_inv p q \<longleftrightarrow> lattice p \<and> quarter_turns q"

definition voxel_inv :: "voxel \<Rightarrow> bool" where
  "voxel_inv v \<longleftrightarrow>
     (if isMoving v
      then (\<exists>rl. roll v = Some rl \<and> in_dirs rl
                \<and> rest_inv (startPosition rl) (startQuaternion rl))
      else rest_inv (position (mesh v)) (quaternion (mesh v)))"

text \<open>
  Eighteen frames of 16 ms: one that starts a roll and the seventeen that carry it out.
  The source \<open>source_c\<close> yields 0 except for its nineteenth value. With it the constructor,
  started at the first value, leaves the voxel \<open>spawned\<close> at (-45, 0, -45) with no wait
  after sixteen draws; the voxel then rolls right (draw 16 selects the direction, draw 17
  the next wait) and forward (draws 18 and 19).
\<close>

definition frames :: "real list" where
  "frames = 16 # replicate 16 16 @ [16]"

definition source_c :: random_source where
  "source_c j = (if j = 18 then 1 / 2 else 0)"

definition spawned :: voxel where
  "spawned = \<lparr>sizeV = 1,
      mesh = \<lparr>position = Vector3 (- 45) 0 (- 45), quaternion = Quaternion 0 0 0 1,
              color = Some 0xFFC72C\<rparr>,
      isMoving = False, waitTimer = 0, roll = None\<rparr>"

definition one_roll :: voxel where
  "one_roll = snapped source_c (spawned\<lparr>waitTimer := waitTimer spawned - 16\<rparr>) 16
                (Vector3 1 0 0) (Vector3 0 0 (- 1))"

definition two_rolls :: voxel where
  "two_rolls = snapped source_c (one_roll\<lparr>waitTimer := waitTimer one_roll - 16\<rparr>) 18
                 (Vector3 0 0 1) (Vector3 1 0 0)"

text \<open>
  The rotation of a vector \<open>w\<close> by the angle \<open>t\<close> about a unit axis \<open>e\<close>, by Rodrigues'
  formula: \<open>w cos t + (e \<times> w) sin t + e (e \<cdot> w) (1 - cos t)\<close>. It is written without
  quaternions, to say what the script's quaternion arithmetic amounts to.
\<close>

fun cross :: "Vector3 \<Rightarrow> Vector3 \<Rightarrow> Vector3" where
  "cross (Vector3 a b c) (Vector3 a' b' c') =
     Vector3 (b * c' - c * b') (c * a' - a * c') (a * b' - b * a')"

fun dot :: "Vector3 \<Rightarrow> Vector3 \<Rightarrow> real" where
  "dot (Vector3 a b c) (Vector3 a' b' c') = a * a' + b * b' + c * c'"

definition rotate_about :: "Vector3 \<Rightarrow> real \<Rightarrow> Vector3 \<Rightarrow> Vector3" where
  "rotate_about e t w =
     add (add (multiplyScalar w (cos t)) (multiplyScalar (cross e w) (sin t)))
         (multiplyScalar e (dot e w * (1 - cos t)))"

text \<open>
  States the script reaches in a roll from (4, 0, 2) to the right: right after
  \<^verbatim>\<open>startRoll\<close>, and after the animation step that brought the progress to \<open>p\<close>.
\<close>

definition voxel_start :: voxel where
  "voxel_start = \<lparr>sizeV = 1,
      mesh = \<lparr>position = Vector3 4 0 2, quaternion = Quaternion 0 0 0 1,
              color = Some 0xFFC72C\<rparr>,
      isMoving = True, waitTimer = 0, roll = Some (roll_right 0)\<rparr>"

definition voxel_mid :: "real \<Rightarrow> voxel" where
  "voxel_mid p = rollingMath (roll_right p) (voxel_start\<lparr>roll := Some (roll_right p)\<rparr>)"

section \<open>Properties of the background switch\<close>

lemma observer_callback_append:
  "observer_callback (xs @ ys) body = observer_callback ys (observer_callback xs body)"
  by (simp add: observer_callback_def)

lemma observer_callback_idle:
  "\<forall>e\<in>set post. \<not> isIntersecting e \<Longrightarrow> observer_callback post body = body"
  by (induction post arbitrary: body) (simp_all add: observer_callback_def on_entry_def)

text \<open>
  Claim C9. A region whose visible fraction goes from below the threshold to at least the
  threshold is reported with \<^verbatim>\<open>isIntersecting\<close> set, and the callback assigns that region's
  colour to the background: the background holds it right after the region's entry is
  processed, wherever the entry stands in the batch, and it is the background at the end of
  the batch when no later entry of the batch is intersecting.
\<close>

theorem upward_crossing_sets_background:
  assumes "prev < threshold" "threshold \<le> new"
  shows "backgroundColor (observer_callback (pre @ observe prev new c) body) = c
       \<and> ((\<forall>e\<in>set post. \<not> isIntersecting e) \<longrightarrow>
            backgroundColor (observer_callback (pre @ observe prev new c @ post) body) = c)"
proof -
  have pos: "0 < new" using assms(2) by (simp add: threshold_def)
  have o: "observe prev new c = [\<lparr>isIntersecting = True, data_color = c\<rparr>]"
    using assms pos by (auto simp: observe_def)
  have 1: "backgroundColor (observer_callback (pre @ observe prev new c) body) = c"
    by (simp add: o observer_callback_def on_entry_def)
  have 2: "backgroundColor (observer_callback (pre @ observe prev new c @ post) body) = c"
    if "\<forall>e\<in>set post. \<not> isIntersecting e"
    using 1 observer_callback_idle [OF that]
    by (metis append_assoc observer_callback_append)
  show ?thesis using 1 2 by blast
qed

theorem upward_crossing_sets_background_witness:
  "(3 / 10 :: real) < threshold \<and> threshold \<le> (45 / 100 :: real)
   \<and> \<not> isIntersecting \<lparr>isIntersecting = False, data_color = Some ''#3b82f6''\<rparr>
   \<and> backgroundColor (observer_callback (observe (3 / 10) (45 / 100) (Some ''#FFC72C''))
         \<lparr>backgroundColor = None\<rparr>) = Some ''#FFC72C''
   \<and> backgroundColor (observer_callback
         ([\<lparr>isIntersecting = True, data_color = Some ''#ffffff''\<rparr>]
          @ observe (3 / 10) (45 / 100) (Some ''#FFC72C'')
          @ [\<lparr>isIntersecting = False, data_color = Some ''#3b82f6''\<rparr>])
         \<lparr>backgroundColor = None\<rparr>) = Some ''#FFC72C''"
  using upward_crossing_sets_background
    [of "3 / 10" "45 / 100" "[]" "Some ''#FFC72C''" "\<lparr>backgroundColor = None\<rparr>" "[]"]
    upward_crossing_sets_background
    [of "3 / 10" "45 / 100" "[\<lparr>isIntersecting = True, data_color = Some ''#ffffff''\<rparr>]"
        "Some ''#FFC72C''" "\<lparr>backgroundColor = None\<rparr>"
        "[\<lparr>isIntersecting = False, data_color = Some ''#3b82f6''\<rparr>]"]
  by (simp add: threshold_def)

section \<open>Rounding to doubles\<close>

lemma round_even_le: "y \<le> of_int n \<Longrightarrow> round_even y \<le> n"
  unfolding round_even_def Let_def by (auto simp: floor_le_iff) (linarith+)?

lemma round_even_ge: "of_int n \<le> y \<Longrightarrow> n \<le> round_even y"
  unfolding round_even_def Let_def by (auto simp: le_floor_iff) (linarith+)?

lemma binade_eq:
  assumes "2 powr of_int e \<le> \<bar>a\<bar>" "\<bar>a\<bar> < 2 powr (of_int e + 1)"
  shows "binade a = e"
proof -
  have "0 < \<bar>a\<bar>" using assms(1) by (smt (verit) powr_gt_zero)
  then show ?thesis unfolding binade_def using assms
    by (simp add: floor_log_eq_powr_iff)
qed

lemma fl_binade:
  assumes "2 powr of_int e \<le> \<bar>a\<bar>" "\<bar>a\<bar> < 2 powr (of_int e + 1)"
  shows "fl a = 2 powr (of_int e - 52) * of_int (round_even (a / 2 powr (of_int e - 52)))"
proof -
  have "a \<noteq> 0" using assms(1) by (smt (verit) powr_gt_zero)
  then show ?thesis by (simp add: fl_def binade_eq [OF assms] Let_def)
qed

lemma fl_pos_le:
  assumes "0 < a" "a < 2 powr of_int k"
  shows "0 \<le> fl a \<and> fl a \<le> 2 powr of_int k"
proof -
  define e where "e = binade a"
  have e: "2 powr of_int e \<le> a" "a < 2 powr (of_int e + 1)"
    using assms(1) floor_log_eq_powr_iff [of a 2 e] by (simp_all add: e_def binade_def)
  have "(2::real) powr of_int e < 2 powr of_int k" using e(1) assms(2) by linarith
  then have ek: "e + 1 \<le> k" by simp
  define u :: real where "u = 2 powr (of_int e - 52)"
  have u: "0 < u" by (simp add: u_def)
  have f: "fl a = u * of_int (round_even (a / u))"
    using assms(1) by (simp add: fl_def e_def u_def Let_def)
  have up: "(2::real) powr (of_int e + 1) = u * 2 ^ 53"
    by (simp add: u_def powr_diff powr_add)
  have "a / u \<le> of_int (2 ^ 53)"
    using e(2) u unfolding up by (simp add: pos_divide_le_eq mult.commute)
  then have "round_even (a / u) \<le> 2 ^ 53" by (rule round_even_le)
  then have "of_int (round_even (a / u)) \<le> (2 ^ 53 :: real)"
    by (metis of_int_le_iff of_int_numeral of_int_power)
  then have "fl a \<le> u * 2 ^ 53" unfolding f using u by simp
  moreover have "(2::real) powr (of_int e + 1) \<le> 2 powr of_int k"
    using ek by (metis of_int_1 of_int_add of_int_le_iff one_less_numeral_iff powr_le_cancel_iff semiring_norm(76))
  moreover have "of_int 0 \<le> a / u" using assms(1) u by simp
  then have "0 \<le> round_even (a / u)" by (rule round_even_ge)
  then have "0 \<le> fl a" unfolding f using u by simp
  ultimately show ?thesis unfolding up by linarith
qed

lemma fl_neg_ge:
  assumes "a < 0" "- (2 powr of_int k) < a"
  shows "fl a \<le> 0 \<and> - (2 powr of_int k) \<le> fl a"
proof -
  define e where "e = binade a"
  have a: "0 < \<bar>a\<bar>" using assms(1) by simp
  have e: "2 powr of_int e \<le> \<bar>a\<bar>" "\<bar>a\<bar> < 2 powr (of_int e + 1)"
    using a floor_log_eq_powr_iff [of "\<bar>a\<bar>" 2 e] by (simp_all add: e_def binade_def)
  have "(2::real) powr of_int e < 2 powr of_int k" using e(1) assms by linarith
  then have ek: "e + 1 \<le> k" by simp
  define u :: real where "u = 2 powr (of_int e - 52)"
  have u: "0 < u" by (simp add: u_def)
  have f: "fl a = u * of_int (round_even (a / u))"
    using assms(1) by (simp add: fl_def e_def u_def Let_def)
  have up: "(2::real) powr (of_int e + 1) = u * 2 ^ 53"
    by (simp add: u_def powr_diff powr_add)
  have "- (u * 2 ^ 53) \<le> a" using e(2) assms(1) unfolding up by simp
  then have "of_int (- (2 ^ 53)) \<le> a / u"
    using u by (simp add: pos_le_divide_eq mult.commute)
  then have "- (2 ^ 53) \<le> round_even (a / u)" by (rule round_even_ge)
  then have "- (2 ^ 53 :: real) \<le> of_int (round_even (a / u))"
    by (metis of_int_le_iff of_int_minus of_int_numeral of_int_power)
  then have "- (u * 2 ^ 53) \<le> fl a" unfolding f using u
    by (metis mult_le_cancel_left_pos mult_minus_right)
  moreover have "(2::real) powr (of_int e + 1) \<le> 2 powr of_int k"
    using ek by (metis of_int_1 of_int_add of_int_le_iff one_less_numeral_iff powr_le_cancel_iff semiring_norm(76))
  moreover have "a / u \<le> of_int 0" using assms(1) u by (simp add: divide_nonpos_pos)
  then have "round_even (a / u) \<le> 0" by (rule round_even_le)
  then have "fl a \<le> 0" unfolding f using u by (simp add: mult_le_0_iff)
  ultimately show ?thesis unfolding up by linarith
qed

lemma fl_0: "fl 0 = 0"
  by (simp add: fl_def)

lemma fl_quarter:
  assumes "1 / 4 \<le> \<bar>a\<bar>" "\<bar>a\<bar> < 1 / 2"
  shows "fl a = of_int (round_even (a * 2 ^ 54)) / 2 ^ 54"
proof -
  have p: "(2::real) powr of_int (- 2) = 1 / 4" "(2::real) powr (of_int (- 2) + 1) = 1 / 2"
    "(2::real) powr (of_int (- 2) - 52) = 1 / 2 ^ 54"
    by (simp_all add: powr_minus divide_simps)
  show ?thesis using fl_binade [of "- 2" a] assms unfolding p by simp
qed

lemma fl_half: "fl (- 1 / 2) = - 1 / 2"
proof -
  have p: "(2::real) powr of_int (- 1) = 1 / 2" "(2::real) powr (of_int (- 1) + 1) = 1"
    "(2::real) powr (of_int (- 1) - 52) = 1 / 2 ^ 53"
    by (simp_all add: powr_minus divide_simps)
  have "fl (- 1 / 2) = of_int (round_even (- 1 / 2 * 2 ^ 53)) / 2 ^ 53"
    using fl_binade [of "- 1" "- 1 / 2"] unfolding p by simp
  then show ?thesis by (simp add: round_even_def)
qed

lemma fl_16:
  assumes "16 \<le> \<bar>a\<bar>" "\<bar>a\<bar> < 32"
  shows "fl a = of_int (round_even (a * 2 ^ 48)) / 2 ^ 48"
proof -
  have p: "(2::real) powr of_int 4 = 16" "(2::real) powr (of_int 4 + 1) = 32"
    "(2::real) powr (of_int 4 - 52) = 1 / 2 ^ 48"
    by (simp_all add: powr_minus divide_simps)
  show ?thesis using fl_binade [of 4 a] assms unfolding p by simp
qed

lemma fl_32:
  assumes "32 \<le> \<bar>a\<bar>" "\<bar>a\<bar> < 64"
  shows "fl a = of_int (round_even (a * 2 ^ 47)) / 2 ^ 47"
proof -
  have p: "(2::real) powr of_int 5 = 32" "(2::real) powr (of_int 5 + 1) = 64"
    "(2::real) powr (of_int 5 - 52) = 1 / 2 ^ 47"
    by (simp_all add: powr_minus divide_simps)
  show ?thesis using fl_binade [of 5 a] assms unfolding p by simp
qed

lemma fl_sub_half:
  assumes "0 \<le> u" "u \<le> 1 - 1 / 2 ^ 53"
  shows "- 1 / 2 \<le> fl (u - 1 / 2) \<and> fl (u - 1 / 2) \<le> 1 / 2 - 1 / 2 ^ 53"
proof -
  define a where "a = u - 1 / 2"
  have a: "- 1 / 2 \<le> a" "a \<le> 1 / 2 - 1 / 2 ^ 53" using assms by (simp_all add: a_def)
  have p2: "(2::real) powr of_int (- 2) = 1 / 4" "(2::real) powr of_int (- 1) = 1 / 2"
    by (simp_all add: powr_minus divide_simps)
  consider (z) "a = 0" | (m) "a = - 1 / 2" | (n) "- 1 / 2 < a" "a < 0"
    | (s) "0 < a" "a < 1 / 4" | (b) "1 / 4 \<le> a"
    using a(1) by linarith
  then have "- 1 / 2 \<le> fl a \<and> fl a \<le> 1 / 2 - 1 / 2 ^ 53"
  proof cases
    case z
    then show ?thesis by (simp add: fl_0)
  next
    case m
    then have "fl a = a" using fl_half by simp
    then show ?thesis using m by simp
  next
    case n
    then show ?thesis using fl_neg_ge [of a "- 1"] unfolding p2 by simp
  next
    case s
    then show ?thesis using fl_pos_le [of a "- 2"] unfolding p2 by simp
  next
    case b
    have lt: "\<bar>a\<bar> < 1 / 2" using a(2) b by simp
    have f: "fl a = of_int (round_even (a * 2 ^ 54)) / 2 ^ 54"
      using fl_quarter [of a] b lt by simp
    have "a * 2 ^ 54 \<le> of_int (2 ^ 53 - 2)" using a(2) by simp
    then have "round_even (a * 2 ^ 54) \<le> 2 ^ 53 - 2" by (rule round_even_le)
    then have "(of_int (round_even (a * 2 ^ 54)) :: real) \<le> of_int (2 ^ 53 - 2)"
      by (simp only: of_int_le_iff)
    then have u: "fl a \<le> 1 / 2 - 1 / 2 ^ 53" unfolding f by (simp add: divide_simps)
    have "of_int 0 \<le> a * 2 ^ 54" using b by simp
    then have "0 \<le> round_even (a * 2 ^ 54)" by (rule round_even_ge)
    then have "0 \<le> fl a" unfolding f by simp
    then show ?thesis using u by simp
  qed
  then show ?thesis by (simp add: a_def)
qed

lemma fl_times_90:
  assumes "- 1 / 2 \<le> b" "b \<le> 1 / 2 - 1 / 2 ^ 53"
  shows "- 45 \<le> fl (b * 90) \<and> fl (b * 90) \<le> 45 - 1 / 2 ^ 47"
proof -
  define a where "a = b * 90"
  have a: "- 45 \<le> a" "a \<le> 45 - 90 / 2 ^ 53" using assms by (simp_all add: a_def)
  have p2: "(2::real) powr of_int 5 = 32" by simp
  consider (z) "a = 0" | (n) "- 32 < a" "a < 0" | (m) "a \<le> - 32"
    | (s) "0 < a" "a < 32" | (b) "32 \<le> a"
    by linarith
  then have "- 45 \<le> fl a \<and> fl a \<le> 45 - 1 / 2 ^ 47"
  proof cases
    case z
    then show ?thesis by (simp add: fl_0)
  next
    case n
    then show ?thesis using fl_neg_ge [of a 5] unfolding p2 by simp
  next
    case s
    then show ?thesis using fl_pos_le [of a 5] unfolding p2 by simp
  next
    case m
    have f: "fl a = of_int (round_even (a * 2 ^ 47)) / 2 ^ 47"
      using fl_32 [of a] m a(1) by simp
    have "of_int (- (45 * 2 ^ 47)) \<le> a * 2 ^ 47" using a(1) by simp
    then have "- (45 * 2 ^ 47) \<le> round_even (a * 2 ^ 47)" by (rule round_even_ge)
    then have "(of_int (- (45 * 2 ^ 47)) :: real) \<le> of_int (round_even (a * 2 ^ 47))"
      by (simp only: of_int_le_iff)
    then have l: "- 45 \<le> fl a" unfolding f by (simp add: divide_simps)
    have "a * 2 ^ 47 \<le> of_int 0" using m by simp
    then have "round_even (a * 2 ^ 47) \<le> 0" by (rule round_even_le)
    then have "fl a \<le> 0" unfolding f by (simp add: divide_le_0_iff)
    then show ?thesis using l by simp
  next
    case b
    have f: "fl a = of_int (round_even (a * 2 ^ 47)) / 2 ^ 47"
      using fl_32 [of a] b a(2) by simp
    have "a * 2 ^ 47 \<le> of_int (45 * 2 ^ 47 - 1)" using a(2) by simp
    then have "round_even (a * 2 ^ 47) \<le> 45 * 2 ^ 47 - 1" by (rule round_even_le)
    then have "(of_int (round_even (a * 2 ^ 47)) :: real) \<le> of_int (45 * 2 ^ 47 - 1)"
      by (simp only: of_int_le_iff)
    then have u: "fl a \<le> 45 - 1 / 2 ^ 47" unfolding f by (simp add: divide_simps)
    have "of_int 0 \<le> a * 2 ^ 47" using b by simp
    then have "0 \<le> round_even (a * 2 ^ 47)" by (rule round_even_ge)
    then have "0 \<le> fl a" unfolding f by simp
    then show ?thesis using u by simp
  qed
  then show ?thesis by (simp add: a_def)
qed

lemma spawn_coordinate_bounds:
  assumes "0 \<le> u" "u \<le> 1 - 1 / 2 ^ 53"
  shows "- 45 \<le> \<lfloor>fl (fl (u - 1 / 2) * 90)\<rfloor> \<and> \<lfloor>fl (fl (u - 1 / 2) * 90)\<rfloor> \<le> 44"
proof -
  have b: "- 45 \<le> fl (fl (u - 1 / 2) * 90)" "fl (fl (u - 1 / 2) * 90) \<le> 45 - 1 / 2 ^ 47"
    using fl_times_90 [of "fl (u - 1 / 2)"] fl_sub_half [OF assms] by simp_all
  have "fl (fl (u - 1 / 2) * 90) < 45" using b(2) by simp
  then have "\<lfloor>fl (fl (u - 1 / 2) * 90)\<rfloor> < 45" by (simp add: floor_less_iff)
  moreover have "- 45 \<le> \<lfloor>fl (fl (u - 1 / 2) * 90)\<rfloor>" using b(1) by (simp add: le_floor_iff)
  ultimately show ?thesis by simp
qed

lemma u_tie_spawn:
  "fl (fl (u_tie - 1 / 2) * 90) = 23" "\<lfloor>(u_tie - 1 / 2) * 90\<rfloor> = 22"
proof -
  have a: "fl (u_tie - 1 / 2) = u_tie - 1 / 2"
    using fl_quarter [of "u_tie - 1 / 2"] by (simp add: u_tie_def round_even_def)
  show "fl (fl (u_tie - 1 / 2) * 90) = 23"
    unfolding a using fl_16 [of "(u_tie - 1 / 2) * 90"] by (simp add: u_tie_def round_even_def)
  show "\<lfloor>(u_tie - 1 / 2) * 90\<rfloor> = 22"
    by (simp add: u_tie_def floor_eq_iff)
qed

lemma round_even_le_pred: "y < of_int n - 1 / 2 \<Longrightarrow> round_even y \<le> n - 1"
  unfolding round_even_def Let_def by (auto simp: floor_le_iff) (linarith+)?

lemma fl_2048:
  assumes "2048 \<le> \<bar>a\<bar>" "\<bar>a\<bar> < 4096"
  shows "fl a = of_int (round_even (a * 2 ^ 41)) / 2 ^ 41"
proof -
  have p: "(2::real) powr of_int 11 = 2048" "(2::real) powr (of_int 11 + 1) = 4096"
    "(2::real) powr (of_int 11 - 52) = 1 / 2 ^ 41"
    by (simp_all add: powr_minus divide_simps)
  show ?thesis using fl_binade [of 11 a] assms unfolding p by simp
qed

lemma fl_wait:
  assumes "0 \<le> u" "u \<le> 1 - 1 / 2 ^ 53"
  shows "0 \<le> fl (u * 4000) \<and> fl (u * 4000) < 4000"
proof -
  define a where "a = u * 4000"
  have a: "0 \<le> a" "a \<le> 4000 - 4000 / 2 ^ 53" using assms by (simp_all add: a_def)
  have p2: "(2::real) powr of_int 11 = 2048" by simp
  consider (z) "a = 0" | (s) "0 < a" "a < 2048" | (b) "2048 \<le> a"
    using a(1) by linarith
  then have "0 \<le> fl a \<and> fl a < 4000"
  proof cases
    case z
    then show ?thesis by (simp add: fl_0)
  next
    case s
    then show ?thesis using fl_pos_le [of a 11] unfolding p2 by simp
  next
    case b
    have f: "fl a = of_int (round_even (a * 2 ^ 41)) / 2 ^ 41"
      using fl_2048 [of a] b a(2) by simp
    have "a * 2 ^ 41 < of_int (4000 * 2 ^ 41) - 1 / 2" using a(2) by simp
    then have "round_even (a * 2 ^ 41) \<le> 4000 * 2 ^ 41 - 1" by (rule round_even_le_pred)
    then have "(of_int (round_even (a * 2 ^ 41)) :: real) \<le> of_int (4000 * 2 ^ 41 - 1)"
      by (simp only: of_int_le_iff)
    then have u: "fl a < 4000" unfolding f by (simp add: divide_simps)
    have "of_int 0 \<le> a * 2 ^ 41" using b by simp
    then have "0 \<le> round_even (a * 2 ^ 41)" by (rule round_even_ge)
    then have "0 \<le> fl a" unfolding f by simp
    then show ?thesis using u by simp
  qed
  then show ?thesis by (simp add: a_def)
qed

lemma fl_exact_examples:
  "fl (3 / 4 - 1 / 2) = 1 / 4" "fl (1 / 4 * 90) = 45 / 2" "fl (3 / 4 * 4000) = 3000"
proof -
  show "fl (3 / 4 - 1 / 2) = 1 / 4"
    using fl_quarter [of "3 / 4 - 1 / 2"] by (simp add: round_even_def)
  show "fl (1 / 4 * 90) = 45 / 2"
    using fl_16 [of "1 / 4 * 90"] by (simp add: round_even_def)
  show "fl (3 / 4 * 4000) = 3000"
    using fl_2048 [of "3 / 4 * 4000"] by (simp add: round_even_def)
qed

section \<open>Properties of reset\<close>

lemma valid_randomD:
  assumes "valid_random r"
  shows "0 \<le> r i" "r i \<le> 1 - 1 / 2 ^ 53" "r i < 1"
proof -
  show a: "0 \<le> r i" and b: "r i \<le> 1 - 1 / 2 ^ 53"
    using assms by (simp_all add: valid_random_def)
  show "r i < 1" using b by simp
qed

lemma Math_floor_spawn_bounds:
  assumes "0 \<le> u" "u \<le> 1 - 1 / 2 ^ 53"
  shows "- 45 \<le> Math_floor (fl (fl (u - 1 / 2) * 90))
       \<and> Math_floor (fl (fl (u - 1 / 2) * 90)) \<le> 44"
  using spawn_coordinate_bounds [OF assms] unfolding Math_floor_def
  by (metis of_int_le_iff of_int_minus of_int_numeral)

lemma Math_floor_Ints: "Math_floor a \<in> \<int>"
  by (simp add: Math_floor_def)

lemma reset_fields:
  "reset r (v, i) =
     (v\<lparr>mesh := (mesh v)\<lparr>position := Vector3 (Math_floor (fl (fl (r i - 1 / 2) * 90))) 0
                                             (Math_floor (fl (fl (r (i + 1) - 1 / 2) * 90))),
                       quaternion := Quaternion 0 0 0 1\<rparr>,
        waitTimer := fl (r (i + 2) * 4000), isMoving := False\<rparr>, i + 3)"
  by (simp add: reset_def setFromEuler_def spawnRange_def maxWaitTime_def Let_def)

lemma reset_position:
  "position (mesh (fst (reset r (v, i)))) =
     Vector3 (Math_floor (fl (fl (r i - 1 / 2) * 90))) 0
             (Math_floor (fl (fl (r (i + 1) - 1 / 2) * 90)))"
  by (simp add: reset_fields)

text \<open>
  Claim C10. With the spawn range 90, every call of \<^verbatim>\<open>reset\<close> puts the voxel at
  x = floor((u1 - 0.5) * 90), y = 0, z = floor((u2 - 0.5) * 90) for the next two random
  values u1 and u2 in [0, 1), the difference and the product being the doubles the script
  computes; x and z are integers in the interval from -45 to 44.
\<close>

theorem reset_spawn_interval:
  assumes "valid_random r"
  shows "position (mesh (fst (reset r (v, i)))) =
           Vector3 (Math_floor (fl (fl (r i - 1 / 2) * 90))) 0
                   (Math_floor (fl (fl (r (i + 1) - 1 / 2) * 90)))
         \<and> vx (position (mesh (fst (reset r (v, i))))) \<in> \<int>
         \<and> - 45 \<le> vx (position (mesh (fst (reset r (v, i)))))
         \<and> vx (position (mesh (fst (reset r (v, i))))) \<le> 44
         \<and> vy (position (mesh (fst (reset r (v, i))))) = 0
         \<and> vz (position (mesh (fst (reset r (v, i))))) \<in> \<int>
         \<and> - 45 \<le> vz (position (mesh (fst (reset r (v, i)))))
         \<and> vz (position (mesh (fst (reset r (v, i))))) \<le> 44
         \<and> spawnRange = 90"
proof -
  have a: "0 \<le> r i" "r i \<le> 1 - 1 / 2 ^ 53" "0 \<le> r (i + 1)" "r (i + 1) \<le> 1 - 1 / 2 ^ 53"
    using valid_randomD [OF assms] by simp_all
  show ?thesis
    using Math_floor_spawn_bounds [OF a(1,2)] Math_floor_spawn_bounds [OF a(3,4)]
    by (simp add: reset_position spawnRange_def Math_floor_Ints)
qed

theorem reset_spawn_interval_witness:
  "valid_random source_tie
   \<and> \<lfloor>(u_tie - 1 / 2) * 90\<rfloor> = 22
   \<and> position (mesh (fst (reset source_tie (voxel0, 0)))) = Vector3 23 0 22"
proof -
  have vr: "valid_random source_tie"
    by (simp add: valid_random_def source_tie_def u_tie_def)
  have s0: "source_tie 0 = u_tie" and s1: "source_tie (0 + 1) = 3 / 4"
    by (simp_all add: source_tie_def)
  have x: "Math_floor (fl (fl (u_tie - 1 / 2) * 90)) = 23"
    unfolding u_tie_spawn(1) by (simp add: Math_floor_def)
  have z: "Math_floor (fl (fl (3 / 4 - 1 / 2) * 90)) = 22"
    unfolding fl_exact_examples(1,2) by (simp add: Math_floor_def)
  have "position (mesh (fst (reset source_tie (voxel0, 0)))) =
           Vector3 (Math_floor (fl (fl (source_tie 0 - 1 / 2) * 90))) 0
                   (Math_floor (fl (fl (source_tie (0 + 1) - 1 / 2) * 90)))"
    using reset_spawn_interval [OF vr, of voxel0 0] by (rule conjunct1)
  then have p: "position (mesh (fst (reset source_tie (voxel0, 0)))) = Vector3 23 0 22"
    unfolding s0 s1 x z .
  show ?thesis using vr u_tie_spawn(2) p by blast
qed

section \<open>Properties of one animation step\<close>

lemma animateRoll_end:
  assumes "roll v = Some rl" "rollProgress rl + moveSpeed \<ge> 1"
  shows "animateRoll r (v, i) =
           Inr (despawnCheck r (endStep r (advance rl) (v\<lparr>roll := Some (advance rl)\<rparr>, i)))"
  using assms by (simp add: animateRoll_def advance_def Let_def)

lemma animateRoll_mid:
  assumes "roll v = Some rl" "rollProgress rl + moveSpeed < 1"
  shows "animateRoll r (v, i) =
           Inr (rollingMath (advance rl) (v\<lparr>roll := Some (advance rl)\<rparr>), i)"
  using assms by (simp add: animateRoll_def advance_def Let_def)

lemma dirs_cases:
  assumes "in_dirs rl"
  shows "(direction rl = Vector3 1 0 0 \<and> axis rl = Vector3 0 0 (-1))
       \<or> (direction rl = Vector3 (-1) 0 0 \<and> axis rl = Vector3 0 0 1)
       \<or> (direction rl = Vector3 0 0 1 \<and> axis rl = Vector3 1 0 0)
       \<or> (direction rl = Vector3 0 0 (-1) \<and> axis rl = Vector3 (-1) 0 0)"
  using assms by (auto simp: in_dirs_def dirs_def)

subsection \<open>Quaternions as rotations\<close>

lemma norm2_mult: "norm2 (multiplyQuaternions a b) = norm2 a * norm2 b"
  by (cases a; cases b) (simp add: norm2_def algebra_simps)

lemma apply_conj:
  "applyQuaternion v q = add (conj_by v q) (multiplyScalar v (1 - norm2 q))"
  by (cases v; cases q) (simp add: norm2_def algebra_simps)

lemma conj_mult: "conj_by v (multiplyQuaternions a b) = conj_by (conj_by v b) a"
  by (cases v; cases a; cases b) (simp add: algebra_simps)

lemma apply_mult:
  assumes "norm2 a = 1" "norm2 b = 1"
  shows "applyQuaternion v (multiplyQuaternions a b) = applyQuaternion (applyQuaternion v b) a"
proof -
  have ab: "norm2 (multiplyQuaternions a b) = 1" using assms by (simp add: norm2_mult)
  have z: "add p (multiplyScalar w 0) = p" for p w
    by (cases p; cases w) simp
  have u: "applyQuaternion w q = conj_by w q" if "norm2 q = 1" for w q
    using that by (simp add: apply_conj [of w q] z)
  show ?thesis using assms ab by (simp add: u conj_mult)
qed

lemma half_angle:
  fixes t :: real
  shows "sin t = 2 * sin (t / 2) * cos (t / 2)" "cos t = 1 - 2 * (sin (t / 2) * sin (t / 2))"
proof -
  show "sin t = 2 * sin (t / 2) * cos (t / 2)" using sin_double [of "t / 2"] by simp
  show "cos t = 1 - 2 * (sin (t / 2) * sin (t / 2))"
    using cos_double_sin [of "t / 2"] by (simp add: power2_eq_square)
qed

lemma axis_angle_norm2:
  assumes "in_dirs rl"
  shows "norm2 (setFromAxisAngle (axis rl) t) = 1"
proof -
  have "sin (t / 2) * sin (t / 2) + cos (t / 2) * cos (t / 2) = 1"
    using sin_cos_squared_add [of "t / 2"] by (simp add: power2_eq_square)
  then show ?thesis using dirs_cases [OF assms] by (auto simp: norm2_def Let_def)
qed

lemma axis_angle_rotates:
  assumes "in_dirs rl"
  shows "applyQuaternion w (setFromAxisAngle (axis rl) t) = rotate_about (axis rl) t w"
proof -
  obtain a b c where w: "w = Vector3 a b c" by (cases w)
  define s where "s = sin (t / 2)"
  define k where "k = cos (t / 2)"
  have sk: "s * s + k * k = 1"
    using sin_cos_squared_add [of "t / 2"] by (simp add: power2_eq_square s_def k_def)
  have st: "sin t = 2 * s * k" and ct: "cos t = 1 - 2 * (s * s)"
    using half_angle [of t] by (simp_all add: s_def k_def)
  have e: "applyQuaternion (Vector3 a b c) (Quaternion (x * s) (y * s) (z * s) k)
      = rotate_about (Vector3 x y z) t (Vector3 a b c)"
    if "(x = 0 \<and> y = 0 \<and> (z = 1 \<or> z = - 1)) \<or> (y = 0 \<and> z = 0 \<and> (x = 1 \<or> x = - 1))" for x y z
    using that by (auto simp: rotate_about_def st ct algebra_simps)
  obtain x y z where ax: "axis rl = Vector3 x y z"
    and c: "(x = 0 \<and> y = 0 \<and> (z = 1 \<or> z = - 1)) \<or> (y = 0 \<and> z = 0 \<and> (x = 1 \<or> x = - 1))"
    using dirs_cases [OF assms] by (cases "axis rl") auto
  have q: "setFromAxisAngle (Vector3 x y z) t = Quaternion (x * s) (y * s) (z * s) k"
    by (simp add: s_def k_def Let_def)
  show ?thesis unfolding ax w q using e [OF c] .
qed

lemma quarter_turn_about:
  "rotate_about e (pi / 2) w = add (cross e w) (multiplyScalar e (dot e w))"
  by (cases e; cases w) (simp add: rotate_about_def)

lemma premultiply_components:
  "multiplyQuaternions (setFromAxisAngle e t) q =
     Quaternion (vx e * sin (t / 2) * qw q + cos (t / 2) * qx q
                   + vy e * sin (t / 2) * qz q - vz e * sin (t / 2) * qy q)
                (vy e * sin (t / 2) * qw q + cos (t / 2) * qy q
                   + vz e * sin (t / 2) * qx q - vx e * sin (t / 2) * qz q)
                (vz e * sin (t / 2) * qw q + cos (t / 2) * qz q
                   + vx e * sin (t / 2) * qy q - vy e * sin (t / 2) * qx q)
                (cos (t / 2) * qw q - vx e * sin (t / 2) * qx q
                   - vy e * sin (t / 2) * qy q - vz e * sin (t / 2) * qz q)"
  by (cases e; cases q) (simp add: Let_def)

lemma premultiply_rotates:
  assumes "in_dirs rl" "norm2 q = 1"
  shows "norm2 (multiplyQuaternions (setFromAxisAngle (axis rl) t) q) = 1"
    and "applyQuaternion w (multiplyQuaternions (setFromAxisAngle (axis rl) t) q)
           = rotate_about (axis rl) t (applyQuaternion w q)"
proof -
  have n: "norm2 (setFromAxisAngle (axis rl) t) = 1" using assms(1) by (rule axis_angle_norm2)
  show "norm2 (multiplyQuaternions (setFromAxisAngle (axis rl) t) q) = 1"
    using n assms(2) by (simp add: norm2_mult)
  show "applyQuaternion w (multiplyQuaternions (setFromAxisAngle (axis rl) t) q)
           = rotate_about (axis rl) t (applyQuaternion w q)"
    using apply_mult [OF n assms(2)] axis_angle_rotates [OF assms(1)] by simp
qed

lemma pi_half_half: "pi / 2 / 2 = pi / 4"
  by simp

lemma voxel_mid_roll: "roll (voxel_mid p) = Some (roll_right p)"
  by (simp add: voxel_mid_def rollingMath_def Let_def)

lemma roll_right_dirs: "in_dirs (roll_right p)"
  by (simp add: in_dirs_def roll_right_def dirs_def)

lemma voxel_start_roll: "roll voxel_start = Some (roll_right 0)"
  by (simp add: voxel_start_def)

lemma roll_right_pivot:
  "pivot (roll_right p) =
     add (add (startPosition (roll_right p)) (multiplyScalar (direction (roll_right p)) (1 / 2)))
         (Vector3 0 (- (1 / 2)) 0)"
  by (simp add: roll_right_def)

lemma roll_right_shift:
  "add (startPosition (roll_right p))
       (add (multiplyScalar (direction (roll_right p)) k) (Vector3 0 m 0)) = Vector3 (4 + k) m 2"
  by (simp add: roll_right_def)

subsection \<open>The end of a roll\<close>

text \<open>
  Claim C1. When \<^verbatim>\<open>animateRoll\<close> finds the progress at or above 1, the end step sets the
  position to \<open>startPosition + direction\<close>: the vertical coordinate is that of the start
  position, and exactly one of x and z differs from the start position, by exactly 1 in
  absolute value. It sets the quaternion to the product of the quaternion of the angle
  \<open>\<pi>/2\<close> about the stored axis with \<open>startQuaternion\<close>, given here in components; the
  progress does not enter. For a start orientation of length 1 the new orientation turns
  every vector as the start orientation does, followed by the quarter turn about the
  stored axis, \<open>w \<mapsto> e \<times> w + e (e \<cdot> w)\<close>. The result of \<^verbatim>\<open>animateRoll\<close> is this state after
  the despawn check, and this state itself when the snapped position is within the spawn
  range.
\<close>

theorem completed_roll_snap:
  assumes "roll v = Some rl" "in_dirs rl" "rollProgress rl + moveSpeed \<ge> 1"
  shows "\<exists>v1 i1. endStep r (advance rl) (v\<lparr>roll := Some (advance rl)\<rparr>, i) = (v1, i1)
           \<and> animateRoll r (v, i) = Inr (despawnCheck r (v1, i1))
           \<and> position (mesh v1) = add (startPosition rl) (direction rl)
           \<and> vy (position (mesh v1)) = vy (startPosition rl)
           \<and> ((\<bar>vx (position (mesh v1)) - vx (startPosition rl)\<bar> = 1
                  \<and> vz (position (mesh v1)) = vz (startPosition rl))
               \<or> (vx (position (mesh v1)) = vx (startPosition rl)
                  \<and> \<bar>vz (position (mesh v1)) - vz (startPosition rl)\<bar> = 1))
           \<and> quaternion (mesh v1) =
                 multiplyQuaternions (setFromAxisAngle (axis rl) (pi / 2)) (startQuaternion rl)
           \<and> quaternion (mesh v1) =
                 Quaternion
                   (vx (axis rl) * sin (pi / 4) * qw (startQuaternion rl)
                      + cos (pi / 4) * qx (startQuaternion rl)
                      + vy (axis rl) * sin (pi / 4) * qz (startQuaternion rl)
                      - vz (axis rl) * sin (pi / 4) * qy (startQuaternion rl))
                   (vy (axis rl) * sin (pi / 4) * qw (startQuaternion rl)
                      + cos (pi / 4) * qy (startQuaternion rl)
                      + vz (axis rl) * sin (pi / 4) * qx (startQuaternion rl)
                      - vx (axis rl) * sin (pi / 4) * qz (startQuaternion rl))
                   (vz (axis rl) * sin (pi / 4) * qw (startQuaternion rl)
                      + cos (pi / 4) * qz (startQuaternion rl)
                      + vx (axis rl) * sin (pi / 4) * qy (startQuaternion rl)
                      - vy (axis rl) * sin (pi / 4) * qx (startQuaternion rl))
                   (cos (pi / 4) * qw (startQuaternion rl)
                      - vx (axis rl) * sin (pi / 4) * qx (startQuaternion rl)
                      - vy (axis rl) * sin (pi / 4) * qy (startQuaternion rl)
                      - vz (axis rl) * sin (pi / 4) * qz (startQuaternion rl))
           \<and> (norm2 (startQuaternion rl) = 1 \<longrightarrow>
                 norm2 (quaternion (mesh v1)) = 1
                 \<and> (\<forall>w. applyQuaternion w (quaternion (mesh v1)) =
                          rotate_about (axis rl) (pi / 2) (applyQuaternion w (startQuaternion rl))))
           \<and> (\<forall>w. rotate_about (axis rl) (pi / 2) w =
                     add (cross (axis rl) w) (multiplyScalar (axis rl) (dot (axis rl) w)))
           \<and> \<not> isMoving v1
           \<and> (\<not> out_of_range (position (mesh v1)) \<longrightarrow> animateRoll r (v, i) = Inr (v1, i1))"
proof -
  obtain a b c where sp: "startPosition rl = Vector3 a b c" by (cases "startPosition rl")
  obtain v1 i1 where e: "endStep r (advance rl) (v\<lparr>roll := Some (advance rl)\<rparr>, i) = (v1, i1)"
    by (cases "endStep r (advance rl) (v\<lparr>roll := Some (advance rl)\<rparr>, i)")
  have p: "position (mesh v1) = add (startPosition rl) (direction rl)"
    using e by (auto simp: endStep_def advance_def Let_def)
  have q: "quaternion (mesh v1) =
      multiplyQuaternions (setFromAxisAngle (axis rl) (pi / 2)) (startQuaternion rl)"
    using e by (auto simp: endStep_def advance_def Let_def premultiply_def)
  have qc: "quaternion (mesh v1) =
                 Quaternion
                   (vx (axis rl) * sin (pi / 4) * qw (startQuaternion rl)
                      + cos (pi / 4) * qx (startQuaternion rl)
                      + vy (axis rl) * sin (pi / 4) * qz (startQuaternion rl)
                      - vz (axis rl) * sin (pi / 4) * qy (startQuaternion rl))
                   (vy (axis rl) * sin (pi / 4) * qw (startQuaternion rl)
                      + cos (pi / 4) * qy (startQuaternion rl)
                      + vz (axis rl) * sin (pi / 4) * qx (startQuaternion rl)
                      - vx (axis rl) * sin (pi / 4) * qz (startQuaternion rl))
                   (vz (axis rl) * sin (pi / 4) * qw (startQuaternion rl)
                      + cos (pi / 4) * qz (startQuaternion rl)
                      + vx (axis rl) * sin (pi / 4) * qy (startQuaternion rl)
                      - vy (axis rl) * sin (pi / 4) * qx (startQuaternion rl))
                   (cos (pi / 4) * qw (startQuaternion rl)
                      - vx (axis rl) * sin (pi / 4) * qx (startQuaternion rl)
                      - vy (axis rl) * sin (pi / 4) * qy (startQuaternion rl)
                      - vz (axis rl) * sin (pi / 4) * qz (startQuaternion rl))"
    unfolding q premultiply_components pi_half_half ..
  have g: "norm2 (quaternion (mesh v1)) = 1
           \<and> (\<forall>w. applyQuaternion w (quaternion (mesh v1)) =
                    rotate_about (axis rl) (pi / 2) (applyQuaternion w (startQuaternion rl)))"
    if "norm2 (startQuaternion rl) = 1"
    unfolding q using premultiply_rotates [OF assms(2) that] by blast
  have m: "\<not> isMoving v1" using e by (auto simp: endStep_def Let_def)
  have c: "vy (position (mesh v1)) = vy (startPosition rl)
           \<and> ((\<bar>vx (position (mesh v1)) - vx (startPosition rl)\<bar> = 1
                  \<and> vz (position (mesh v1)) = vz (startPosition rl))
               \<or> (vx (position (mesh v1)) = vx (startPosition rl)
                  \<and> \<bar>vz (position (mesh v1)) - vz (startPosition rl)\<bar> = 1))"
    using dirs_cases [OF assms(2)] by (auto simp: p sp)
  have d: "despawnCheck r (v1, i1) = (v1, i1)" if "\<not> out_of_range (position (mesh v1))"
    using that by (simp add: despawnCheck_def out_of_range_def)
  have a: "animateRoll r (v, i) = Inr (despawnCheck r (v1, i1))"
    using animateRoll_end [OF assms(1,3)] e by simp
  have a': "animateRoll r (v, i) = Inr (v1, i1)" if "\<not> out_of_range (position (mesh v1))"
    using a d [OF that] by simp
  show ?thesis
    using e a p c q qc g quarter_turn_about m a' by blast
qed

theorem completed_roll_snap_witness:
  "roll (voxel_mid (96 / 100)) = Some (roll_right (96 / 100))
   \<and> in_dirs (roll_right (96 / 100))
   \<and> rollProgress (roll_right (96 / 100)) + moveSpeed \<ge> 1
   \<and> norm2 (startQuaternion (roll_right (96 / 100))) = 1
   \<and> \<not> out_of_range (Vector3 5 0 2)
   \<and> (\<exists>v1. animateRoll (\<lambda>i. 0) (voxel_mid (96 / 100), 0) = Inr (v1, 1)
          \<and> position (mesh v1) = Vector3 5 0 2
          \<and> quaternion (mesh v1) = Quaternion 0 0 (- sin (pi / 4)) (cos (pi / 4))
          \<and> applyQuaternion (Vector3 1 0 0) (quaternion (mesh v1)) = Vector3 0 (- 1) 0
          \<and> applyQuaternion (Vector3 0 1 0) (quaternion (mesh v1)) = Vector3 1 0 0
          \<and> applyQuaternion (Vector3 0 0 1) (quaternion (mesh v1)) = Vector3 0 0 1)"
proof -
  let ?rl = "roll_right (96 / 100)"
  have ro: "roll (voxel_mid (96 / 100)) = Some ?rl" by (rule voxel_mid_roll)
  have ind: "in_dirs ?rl" by (rule roll_right_dirs)
  have ge: "rollProgress ?rl + moveSpeed \<ge> 1" by (simp add: roll_right_def moveSpeed_def)
  have n: "norm2 (startQuaternion ?rl) = 1" by (simp add: roll_right_def norm2_def)
  have o: "\<not> out_of_range (Vector3 5 0 2)" by (simp add: out_of_range_def spawnRange_def)
  obtain v1 i1 where
    e: "endStep (\<lambda>i. 0) (advance ?rl) (voxel_mid (96 / 100)\<lparr>roll := Some (advance ?rl)\<rparr>, 0)
          = (v1, i1)"
    and p: "position (mesh v1) = add (startPosition ?rl) (direction ?rl)"
    and q: "quaternion (mesh v1) =
                 Quaternion
                   (vx (axis ?rl) * sin (pi / 4) * qw (startQuaternion ?rl)
                      + cos (pi / 4) * qx (startQuaternion ?rl)
                      + vy (axis ?rl) * sin (pi / 4) * qz (startQuaternion ?rl)
                      - vz (axis ?rl) * sin (pi / 4) * qy (startQuaternion ?rl))
                   (vy (axis ?rl) * sin (pi / 4) * qw (startQuaternion ?rl)
                      + cos (pi / 4) * qy (startQuaternion ?rl)
                      + vz (axis ?rl) * sin (pi / 4) * qx (startQuaternion ?rl)
                      - vx (axis ?rl) * sin (pi / 4) * qz (startQuaternion ?rl))
                   (vz (axis ?rl) * sin (pi / 4) * qw (startQuaternion ?rl)
                      + cos (pi / 4) * qz (startQuaternion ?rl)
                      + vx (axis ?rl) * sin (pi / 4) * qy (startQuaternion ?rl)
                      - vy (axis ?rl) * sin (pi / 4) * qx (startQuaternion ?rl))
                   (cos (pi / 4) * qw (startQuaternion ?rl)
                      - vx (axis ?rl) * sin (pi / 4) * qx (startQuaternion ?rl)
                      - vy (axis ?rl) * sin (pi / 4) * qy (startQuaternion ?rl)
                      - vz (axis ?rl) * sin (pi / 4) * qz (startQuaternion ?rl))"
    and g: "norm2 (startQuaternion ?rl) = 1 \<longrightarrow>
              norm2 (quaternion (mesh v1)) = 1
              \<and> (\<forall>w. applyQuaternion w (quaternion (mesh v1)) =
                     rotate_about (axis ?rl) (pi / 2) (applyQuaternion w (startQuaternion ?rl)))"
    and a: "\<not> out_of_range (position (mesh v1)) \<longrightarrow>
              animateRoll (\<lambda>i. 0) (voxel_mid (96 / 100), 0) = Inr (v1, i1)"
    using completed_roll_snap [OF ro ind ge, of "\<lambda>i. 0" 0] by blast
  have i1: "i1 = 1" using e by (simp add: endStep_def Let_def)
  have p': "position (mesh v1) = Vector3 5 0 2" using p by (simp add: roll_right_def)
  have q': "quaternion (mesh v1) = Quaternion 0 0 (- sin (pi / 4)) (cos (pi / 4))"
    using q by (simp add: roll_right_def)
  have a': "animateRoll (\<lambda>i. 0) (voxel_mid (96 / 100), 0) = Inr (v1, 1)"
    using a o p' i1 by simp
  have r: "applyQuaternion w (quaternion (mesh v1)) =
             rotate_about (Vector3 0 0 (- 1)) (pi / 2) w" for w
  proof -
    have "applyQuaternion w (Quaternion 0 0 0 1) = w" by (cases w) simp
    then show ?thesis using g n by (simp add: roll_right_def)
  qed
  have r1: "applyQuaternion (Vector3 1 0 0) (quaternion (mesh v1)) = Vector3 0 (- 1) 0"
    and r2: "applyQuaternion (Vector3 0 1 0) (quaternion (mesh v1)) = Vector3 1 0 0"
    and r3: "applyQuaternion (Vector3 0 0 1) (quaternion (mesh v1)) = Vector3 0 0 1"
    unfolding r by (simp_all add: rotate_about_def)
  show ?thesis using ro ind ge n o a' p' q' r1 r2 r3 by blast
qed

subsection \<open>The middle of a roll\<close>

lemma early_roll_bounds:
  "0 < 1 - cos (rollAngle (6 / 100)) + sin (rollAngle (6 / 100))"
  "1 - cos (rollAngle (6 / 100)) + sin (rollAngle (6 / 100)) < 2"
  "0 < sin (rollAngle (6 / 100)) + cos (rollAngle (6 / 100)) - 1"
  "sin (rollAngle (6 / 100)) + cos (rollAngle (6 / 100)) - 1 < 1"
proof -
  define t where "t = rollAngle (6 / 100)"
  have t: "0 < t" "t < pi / 2" using pi_gt_zero by (simp_all add: t_def rollAngle_def)
  have s0: "0 < sin t" using t by (intro sin_gt_zero) simp_all
  have c0: "0 < cos t" using t by (intro cos_gt_zero) simp_all
  have c1: "cos t < 1" using cos_monotone_0_pi [of 0 t] t by simp
  have s1: "sin t \<le> 1" by simp
  have "(sin t + cos t)\<^sup>2 = 1 + 2 * (sin t * cos t)"
    using sin_cos_squared_add [of t] by (simp add: power2_eq_square algebra_simps)
  moreover have "0 < sin t * cos t" using s0 c0 by simp
  ultimately have "1\<^sup>2 < (sin t + cos t)\<^sup>2" by simp
  then have sc: "1 < sin t + cos t"
    using s0 c0 by (intro power2_less_imp_less [of 1 "sin t + cos t"]) simp_all
  show "0 < 1 - cos (rollAngle (6 / 100)) + sin (rollAngle (6 / 100))"
    using s0 c1 by (simp add: t_def)
  show "1 - cos (rollAngle (6 / 100)) + sin (rollAngle (6 / 100)) < 2"
    using s1 c0 unfolding t_def by linarith
  show "0 < sin (rollAngle (6 / 100)) + cos (rollAngle (6 / 100)) - 1"
    using sc by (simp add: t_def)
  show "sin (rollAngle (6 / 100)) + cos (rollAngle (6 / 100)) - 1 < 1"
    using s1 c1 unfolding t_def by linarith
qed

text \<open>
  Claim C2. In a step that leaves the progress \<open>p\<close> below 1, position and quaternion are
  computed from the stored snapshots alone: the position is \<open>startPosition - pivot\<close> rotated
  by the angle \<open>(\<pi>/2) * p\<close> about the stored axis, plus the pivot, and the quaternion is the
  rotation by that angle about the axis multiplied onto \<open>startQuaternion\<close>. With the pivot
  that \<^verbatim>\<open>startRoll\<close> stores for a half cube size \<open>h\<close>, the position is the start position moved
  by \<open>h (1 - cos t + sin t)\<close> along the direction and by \<open>h (sin t + cos t - 1)\<close> upwards, \<open>t\<close>
  being the angle. Replacing the mesh's current position and quaternion by any others gives
  the same result. The angle lies between 0 and \<open>\<pi>/2\<close> for every progress between 0 and 1,
  and the rolling math at progress 0 gives the position \<open>startPosition\<close> (the script
  evaluates it from the progress \<^verbatim>\<open>moveSpeed\<close> on).
\<close>

theorem mid_roll_from_snapshot:
  assumes "roll v = Some rl" "in_dirs rl" "rollProgress rl + moveSpeed < 1"
  shows "\<exists>v'. animateRoll r (v, i) = Inr (v', i)
           \<and> position (mesh v') =
               add (applyQuaternion (sub (startPosition rl) (pivot rl))
                      (setFromAxisAngle (axis rl) (rollAngle (rollProgress rl + moveSpeed))))
                   (pivot rl)
           \<and> position (mesh v') =
               add (rotate_about (axis rl) (rollAngle (rollProgress rl + moveSpeed))
                      (sub (startPosition rl) (pivot rl)))
                   (pivot rl)
           \<and> (pivot rl = add (add (startPosition rl) (multiplyScalar (direction rl) h))
                             (Vector3 0 (- h) 0) \<longrightarrow>
                position (mesh v') =
                  add (startPosition rl)
                    (add (multiplyScalar (direction rl)
                            (h * (1 - cos (rollAngle (rollProgress rl + moveSpeed))
                                    + sin (rollAngle (rollProgress rl + moveSpeed)))))
                         (Vector3 0
                            (h * (sin (rollAngle (rollProgress rl + moveSpeed))
                                    + cos (rollAngle (rollProgress rl + moveSpeed)) - 1)) 0)))
           \<and> quaternion (mesh v') =
               multiplyQuaternions
                 (setFromAxisAngle (axis rl) (rollAngle (rollProgress rl + moveSpeed)))
                 (startQuaternion rl)
           \<and> (startQuaternion rl = Quaternion 0 0 0 1 \<longrightarrow>
                quaternion (mesh v') =
                  Quaternion (vx (axis rl) * sin (rollAngle (rollProgress rl + moveSpeed) / 2))
                             (vy (axis rl) * sin (rollAngle (rollProgress rl + moveSpeed) / 2))
                             (vz (axis rl) * sin (rollAngle (rollProgress rl + moveSpeed) / 2))
                             (cos (rollAngle (rollProgress rl + moveSpeed) / 2)))
           \<and> (norm2 (startQuaternion rl) = 1 \<longrightarrow>
                 (\<forall>w. applyQuaternion w (quaternion (mesh v')) =
                        rotate_about (axis rl) (rollAngle (rollProgress rl + moveSpeed))
                          (applyQuaternion w (startQuaternion rl))))
           \<and> rollAngle (rollProgress rl + moveSpeed) = (pi / 2) * (rollProgress rl + moveSpeed)
           \<and> (\<forall>p. 0 \<le> p \<and> p \<le> 1 \<longrightarrow> 0 \<le> rollAngle p \<and> rollAngle p \<le> pi / 2)
           \<and> position (mesh (rollingMath (rl\<lparr>rollProgress := 0\<rparr>) v)) = startPosition rl
           \<and> (\<forall>p' q'. \<exists>w. animateRoll r
                    (v\<lparr>mesh := (mesh v)\<lparr>position := p', quaternion := q'\<rparr>\<rparr>, i) = Inr (w, i)
                  \<and> position (mesh w) = position (mesh v')
                  \<and> quaternion (mesh w) = quaternion (mesh v'))"
proof -
  let ?t = "rollAngle (rollProgress rl + moveSpeed)"
  let ?v = "rollingMath (advance rl) (v\<lparr>roll := Some (advance rl)\<rparr>)"
  obtain a b c where sp: "startPosition rl = Vector3 a b c" by (cases "startPosition rl")
  obtain a' b' c' where pv: "pivot rl = Vector3 a' b' c'" by (cases "pivot rl")
  obtain a'' b'' c'' where ax: "axis rl = Vector3 a'' b'' c''" by (cases "axis rl")
  have an: "animateRoll r (v, i) = Inr (?v, i)" using assms(1,3) by (rule animateRoll_mid)
  have p1: "position (mesh ?v) =
      add (applyQuaternion (sub (startPosition rl) (pivot rl)) (setFromAxisAngle (axis rl) ?t))
          (pivot rl)"
    by (simp add: rollingMath_def advance_def applyAxisAngle_def Let_def)
  have p2: "position (mesh ?v) =
      add (rotate_about (axis rl) ?t (sub (startPosition rl) (pivot rl))) (pivot rl)"
    unfolding p1 axis_angle_rotates [OF assms(2)] ..
  have p3: "position (mesh ?v) =
                  add (startPosition rl)
                    (add (multiplyScalar (direction rl) (h * (1 - cos ?t + sin ?t)))
                         (Vector3 0 (h * (sin ?t + cos ?t - 1)) 0))"
    if "pivot rl = add (add (startPosition rl) (multiplyScalar (direction rl) h))
                             (Vector3 0 (- h) 0)"
    unfolding p2 that using dirs_cases [OF assms(2)]
    by (auto simp: sp rotate_about_def algebra_simps)
  have q1: "quaternion (mesh ?v) =
      multiplyQuaternions (setFromAxisAngle (axis rl) ?t) (startQuaternion rl)"
    by (simp add: rollingMath_def advance_def premultiply_def Let_def)
  have q2: "quaternion (mesh ?v) =
      Quaternion (vx (axis rl) * sin (?t / 2)) (vy (axis rl) * sin (?t / 2))
                 (vz (axis rl) * sin (?t / 2)) (cos (?t / 2))"
    if "startQuaternion rl = Quaternion 0 0 0 1"
    unfolding q1 premultiply_components that by simp
  have q3: "\<forall>w. applyQuaternion w (quaternion (mesh ?v)) =
                        rotate_about (axis rl) ?t (applyQuaternion w (startQuaternion rl))"
    if "norm2 (startQuaternion rl) = 1"
    unfolding q1 using premultiply_rotates(2) [OF assms(2) that] by blast
  have z: "position (mesh (rollingMath (rl\<lparr>rollProgress := 0\<rparr>) v)) = startPosition rl"
    by (simp add: rollingMath_def applyAxisAngle_def Let_def sp pv ax rollAngle_def)
  have ang: "\<forall>p. 0 \<le> p \<and> p \<le> 1 \<longrightarrow> 0 \<le> rollAngle p \<and> rollAngle p \<le> pi / 2"
    by (simp add: rollAngle_def)
  have ra: "?t = (pi / 2) * (rollProgress rl + moveSpeed)"
    by (simp add: rollAngle_def)
  have ind: "\<forall>p' q'. \<exists>w. animateRoll r
                    (v\<lparr>mesh := (mesh v)\<lparr>position := p', quaternion := q'\<rparr>\<rparr>, i) = Inr (w, i)
                  \<and> position (mesh w) = position (mesh ?v)
                  \<and> quaternion (mesh w) = quaternion (mesh ?v)"
    using assms(1,3) by (simp add: animateRoll_def rollingMath_def advance_def Let_def)
  show ?thesis
    using an p1 p2 p3 q1 q2 q3 ra ang z ind by blast
qed

theorem mid_roll_from_snapshot_witness:
  "roll voxel_start = Some (roll_right 0) \<and> in_dirs (roll_right 0)
   \<and> rollProgress (roll_right 0) + moveSpeed < 1
   \<and> startQuaternion (roll_right 0) = Quaternion 0 0 0 1
   \<and> (0::real) \<le> 1 / 2 \<and> (1 / 2 :: real) \<le> 1 \<and> rollAngle (1 / 2) \<le> pi / 2
   \<and> (\<exists>v'. animateRoll (\<lambda>i. 0) (voxel_start, 0) = Inr (v', 0)
          \<and> position (mesh v') =
               Vector3 (4 + 1 / 2 * (1 - cos (rollAngle (6 / 100)) + sin (rollAngle (6 / 100))))
                       (1 / 2 * (sin (rollAngle (6 / 100)) + cos (rollAngle (6 / 100)) - 1)) 2
          \<and> 4 < vx (position (mesh v')) \<and> vx (position (mesh v')) < 5
          \<and> 0 < vy (position (mesh v')) \<and> vy (position (mesh v')) < 1 / 2
          \<and> quaternion (mesh v') =
               Quaternion 0 0 (- sin (rollAngle (6 / 100) / 2)) (cos (rollAngle (6 / 100) / 2)))
   \<and> position (mesh (rollingMath ((roll_right 0)\<lparr>rollProgress := 0\<rparr>) voxel_start)) = Vector3 4 0 2
   \<and> roll (voxel_mid (44 / 100)) = Some (roll_right (44 / 100))
   \<and> rollProgress (roll_right (44 / 100)) + moveSpeed < 1
   \<and> (\<exists>v'. animateRoll (\<lambda>i. 0) (voxel_mid (44 / 100), 0) = Inr (v', 0)
          \<and> position (mesh v') = Vector3 (9 / 2) (sqrt 2 / 2 - 1 / 2) 2)"
proof -
  let ?rl = "roll_right 0"
  define T where "T = rollAngle (rollProgress ?rl + moveSpeed)"
  have T: "T = rollAngle (6 / 100)" by (simp add: T_def roll_right_def moveSpeed_def)
  have lt: "rollProgress ?rl + moveSpeed < 1" by (simp add: roll_right_def moveSpeed_def)
  have sq: "startQuaternion ?rl = Quaternion 0 0 0 1" by (simp add: roll_right_def)
  have ang: "(0::real) \<le> 1 / 2 \<and> (1 / 2 :: real) \<le> 1 \<and> rollAngle (1 / 2) \<le> pi / 2"
    by (simp add: rollAngle_def)
  obtain v' where a: "animateRoll (\<lambda>i. 0) (voxel_start, 0) = Inr (v', 0)"
    and p: "position (mesh v') =
              add (startPosition ?rl)
                (add (multiplyScalar (direction ?rl) (1 / 2 * (1 - cos T + sin T)))
                     (Vector3 0 (1 / 2 * (sin T + cos T - 1)) 0))"
    and q: "quaternion (mesh v') =
              Quaternion (vx (axis ?rl) * sin (T / 2)) (vy (axis ?rl) * sin (T / 2))
                         (vz (axis ?rl) * sin (T / 2)) (cos (T / 2))"
    and z: "position (mesh (rollingMath (?rl\<lparr>rollProgress := 0\<rparr>) voxel_start)) =
              startPosition ?rl"
    using mid_roll_from_snapshot [OF voxel_start_roll roll_right_dirs lt, of "\<lambda>i. 0" 0 "1 / 2"]
      roll_right_pivot [of 0] sq
    unfolding T_def by blast
  have z': "position (mesh (rollingMath (?rl\<lparr>rollProgress := 0\<rparr>) voxel_start)) = Vector3 4 0 2"
    using z by (simp add: roll_right_def)
  have p': "position (mesh v') =
               Vector3 (4 + 1 / 2 * (1 - cos (rollAngle (6 / 100)) + sin (rollAngle (6 / 100))))
                       (1 / 2 * (sin (rollAngle (6 / 100)) + cos (rollAngle (6 / 100)) - 1)) 2"
    using p unfolding roll_right_shift T .
  have bd: "4 < vx (position (mesh v')) \<and> vx (position (mesh v')) < 5
          \<and> 0 < vy (position (mesh v')) \<and> vy (position (mesh v')) < 1 / 2"
    unfolding p' using early_roll_bounds by simp
  have ax: "axis ?rl = Vector3 0 0 (- 1)" by (simp add: roll_right_def)
  have q': "quaternion (mesh v') =
               Quaternion 0 0 (- sin (rollAngle (6 / 100) / 2)) (cos (rollAngle (6 / 100) / 2))"
    using q unfolding ax T by simp
  let ?rh = "roll_right (44 / 100)"
  define H where "H = rollAngle (rollProgress ?rh + moveSpeed)"
  have H: "H = pi / 4" by (simp add: H_def roll_right_def moveSpeed_def rollAngle_def)
  have lth: "rollProgress ?rh + moveSpeed < 1" by (simp add: roll_right_def moveSpeed_def)
  obtain w' where b: "animateRoll (\<lambda>i. 0) (voxel_mid (44 / 100), 0) = Inr (w', 0)"
    and ph: "position (mesh w') =
              add (startPosition ?rh)
                (add (multiplyScalar (direction ?rh) (1 / 2 * (1 - cos H + sin H)))
                     (Vector3 0 (1 / 2 * (sin H + cos H - 1)) 0))"
    using mid_roll_from_snapshot [OF voxel_mid_roll roll_right_dirs lth, of "\<lambda>i. 0" 0 "1 / 2"]
      roll_right_pivot [of "44 / 100"]
    unfolding H_def by blast
  have ph': "position (mesh w') = Vector3 (9 / 2) (sqrt 2 / 2 - 1 / 2) 2"
    using ph unfolding roll_right_shift H by (simp add: sin_45 cos_45)
  show ?thesis
    using voxel_start_roll roll_right_dirs lt sq ang a p' bd q' z' voxel_mid_roll lth b ph'
    by blast
qed



section \<open>A whole roll\<close>

lemma moveSpeed_pos: "0 < moveSpeed"
  by (simp add: moveSpeed_def)

lemma step_moving: "isMoving v \<Longrightarrow> step r d (v, i) = animateRoll r (v, i)"
  by (simp add: step_def)

lemma step_idle_start:
  "\<not> isMoving v \<Longrightarrow> waitTimer v \<le> d \<Longrightarrow>
     step r d (v, i) = startRoll r (v\<lparr>waitTimer := waitTimer v - d\<rparr>, i)"
  by (simp add: step_def Let_def)

lemma step_idle_wait:
  "\<not> isMoving v \<Longrightarrow> d < waitTimer v \<Longrightarrow>
     step r d (v, i) = Inr (v\<lparr>waitTimer := waitTimer v - d\<rparr>, i)"
  by (simp add: step_def Let_def)

lemma steps_append:
  "steps r (ds @ es) s = (case steps r ds s of Inl e \<Rightarrow> Inl e | Inr s' \<Rightarrow> steps r es s')"
  by (induction ds arbitrary: s) (auto split: sum.splits)

text \<open>While the progress stays below 1, the steps of a rolling voxel draw no random value
  and change nothing but the pose and the progress.\<close>

lemma mid_steps:
  assumes "isMoving v" "roll v = Some rl"
    "rollProgress rl + real (length ds) * moveSpeed < 1"
  shows "\<exists>v'. steps r ds (v, i) = Inr (v', i) \<and> pose_only v v'
          \<and> roll v' = Some (rl\<lparr>rollProgress := rollProgress rl + real (length ds) * moveSpeed\<rparr>)"
  using assms
proof (induction ds arbitrary: v rl)
  case Nil
  then show ?case by (simp add: pose_only_def)
next
  case (Cons d ds)
  let ?rl = "advance rl"
  let ?v = "rollingMath ?rl (v\<lparr>roll := Some ?rl\<rparr>)"
  have lt: "rollProgress rl + moveSpeed < 1"
  proof -
    have "0 \<le> real (length ds) * moveSpeed" using moveSpeed_pos by simp
    moreover have "real (length (d # ds)) * moveSpeed = real (length ds) * moveSpeed + moveSpeed"
      by (simp add: algebra_simps)
    ultimately show ?thesis using Cons.prems(3) by linarith
  qed
  have st: "step r d (v, i) = Inr (?v, i)"
    using Cons.prems(1,2) lt by (simp add: step_moving animateRoll_mid)
  have m: "isMoving ?v" using Cons.prems(1) by (simp add: rollingMath_def Let_def)
  have rv: "roll ?v = Some ?rl" by (simp add: rollingMath_def Let_def)
  have pr: "rollProgress ?rl + real (length ds) * moveSpeed < 1"
    using Cons.prems(3) by (simp add: advance_def algebra_simps)
  obtain v' where v': "steps r ds (?v, i) = Inr (v', i)" "pose_only ?v v'"
    "roll v' = Some (?rl\<lparr>rollProgress := rollProgress ?rl + real (length ds) * moveSpeed\<rparr>)"
    using Cons.IH [OF m rv pr] by blast
  have po: "pose_only v v'"
  proof -
    have "v' = ?v\<lparr>mesh := (mesh ?v)\<lparr>position := position (mesh v'),
                                      quaternion := quaternion (mesh v')\<rparr>,
                   roll := roll v'\<rparr>"
      using v'(2) by (simp add: pose_only_def)
    also have "\<dots> = v\<lparr>mesh := (mesh v)\<lparr>position := position (mesh v'),
                                          quaternion := quaternion (mesh v')\<rparr>,
                       roll := roll v'\<rparr>"
      by (simp add: rollingMath_def Let_def)
    finally show ?thesis by (simp add: pose_only_def)
  qed
  show ?case
    using st v' po by (simp add: advance_def algebra_simps)
qed

lemma startRoll_Some:
  assumes "nth_opt dirs \<lfloor>r i * 4\<rfloor> = Some (vec, ax)"
  shows "startRoll r (v, i) = Inr (v\<lparr>isMoving := True, roll := Some (started v vec ax 0)\<rparr>, i + 1)"
  using assms by (simp add: startRoll_def started_def)

lemma nth_opt_dirs:
  assumes "0 \<le> u" "u < (1::real)"
  shows "\<exists>vec ax. nth_opt dirs \<lfloor>u * 4\<rfloor> = Some (vec, ax) \<and> (vec, ax) \<in> set dirs"
proof -
  have "0 \<le> \<lfloor>u * 4\<rfloor>" "\<lfloor>u * 4\<rfloor> < 4" using assms by (simp_all add: floor_less_iff)
  then have "nat \<lfloor>u * 4\<rfloor> < 4" by linarith
  then have "nat \<lfloor>u * 4\<rfloor> < length dirs" by (simp add: dirs_def)
  then have "dirs ! nat \<lfloor>u * 4\<rfloor> \<in> set dirs" by (rule nth_mem)
  moreover have "nth_opt dirs \<lfloor>u * 4\<rfloor> = Some (dirs ! nat \<lfloor>u * 4\<rfloor>)"
    using \<open>0 \<le> \<lfloor>u * 4\<rfloor>\<close> \<open>\<lfloor>u * 4\<rfloor> < 4\<close> by (simp add: dirs_def nth_opt_def)
  ultimately show ?thesis by (metis surj_pair)
qed

lemma full_roll:
  assumes "\<not> isMoving v" "waitTimer v \<le> d" "nth_opt dirs \<lfloor>r i * 4\<rfloor> = Some (vec, ax)"
    "length ds = 16"
  shows "steps r (d # ds @ [d']) (v, i) =
           Inr (despawnCheck r (snapped r (v\<lparr>waitTimer := waitTimer v - d\<rparr>) i vec ax, i + 2))"
proof -
  let ?w = "v\<lparr>waitTimer := waitTimer v - d\<rparr>"
  let ?rl = "started ?w vec ax 0"
  let ?v0 = "?w\<lparr>isMoving := True, roll := Some ?rl\<rparr>"
  let ?rl16 = "?rl\<lparr>rollProgress := rollProgress ?rl + real (length ds) * moveSpeed\<rparr>"
  have s0: "step r d (v, i) = Inr (?v0, i + 1)"
    using assms(1,2,3) startRoll_Some [of r i vec ax ?w] by (simp add: step_idle_start)
  have lt: "rollProgress ?rl + real (length ds) * moveSpeed < 1"
    by (simp add: assms(4) started_def moveSpeed_def)
  have mv: "isMoving ?v0" and ro: "roll ?v0 = Some ?rl" by simp_all
  obtain v' where v': "steps r ds (?v0, i + 1) = Inr (v', i + 1)" "pose_only ?v0 v'"
    "roll v' = Some ?rl16"
    using mid_steps [OF mv ro lt, of r "i + 1"] by blast
  obtain p q ro where veq: "v' = ?v0\<lparr>mesh := (mesh ?v0)\<lparr>position := p, quaternion := q\<rparr>, roll := ro\<rparr>"
    using v'(2) unfolding pose_only_def by blast
  have m: "isMoving v'" by (simp add: veq)
  have ge: "rollProgress ?rl16 + moveSpeed \<ge> 1"
    by (simp add: assms(4) started_def moveSpeed_def)
  have s17: "step r d' (v', i + 1) =
      Inr (despawnCheck r (endStep r (advance ?rl16) (v'\<lparr>roll := Some (advance ?rl16)\<rparr>, i + 1)))"
    using m animateRoll_end [OF v'(3) ge] by (simp add: step_moving)
  have e: "endStep r (advance ?rl16) (v'\<lparr>roll := Some (advance ?rl16)\<rparr>, i + 1) =
      (snapped r ?w i vec ax, i + 2)"
    by (simp add: veq endStep_def snapped_def started_def advance_def premultiply_def Let_def
        assms(4) moveSpeed_def)
  show ?thesis
    using s0 v'(1) s17 e by (simp add: steps_append)
qed

lemma snapped_position:
  "position (mesh (snapped r v i vec ax)) = add (position (mesh v)) vec"
  by (simp add: snapped_def)

text \<open>
  Claim C3. When a waiting voxel's timer runs out, \<^verbatim>\<open>step\<close> starts a roll: the pivot is the
  position plus half the cube size along the chosen direction, and half the cube size
  lower. For a voxel of size 1 at (4, 0, 2) and a random value that selects the direction
  (1, 0, 0), the pivot is (4.5, -0.5, 2), and after the seventeen animation steps of the roll
  the voxel rests at (5, 0, 2).
\<close>

theorem startRoll_pivot:
  assumes "\<not> isMoving v" "waitTimer v \<le> d" "0 \<le> r i" "r i < 1"
  shows "\<exists>v1 rl. step r d (v, i) = Inr (v1, i + 1) \<and> isMoving v1 \<and> roll v1 = Some rl
           \<and> in_dirs rl \<and> rollProgress rl = 0
           \<and> startPosition rl = position (mesh v)
           \<and> startQuaternion rl = quaternion (mesh v)
           \<and> pivot rl = Vector3 (vx (position (mesh v)) + vx (direction rl) * (sizeV v / 2))
                                (vy (position (mesh v)) - sizeV v / 2)
                                (vz (position (mesh v)) + vz (direction rl) * (sizeV v / 2))
           \<and> (position (mesh v) = Vector3 4 0 2 \<and> sizeV v = 1 \<and> r i < 1 / 4 \<and> length ds = 16
                \<longrightarrow> direction rl = Vector3 1 0 0 \<and> pivot rl = Vector3 (9 / 2) (- 1 / 2) 2
                  \<and> (\<exists>v2. steps r (d # ds @ [d']) (v, i) = Inr (v2, i + 2)
                         \<and> \<not> isMoving v2 \<and> position (mesh v2) = Vector3 5 0 2))"
proof -
  let ?w = "v\<lparr>waitTimer := waitTimer v - d\<rparr>"
  obtain vec ax where va: "nth_opt dirs \<lfloor>r i * 4\<rfloor> = Some (vec, ax)" "(vec, ax) \<in> set dirs"
    using nth_opt_dirs [OF assms(3,4)] by blast
  let ?rl = "started ?w vec ax 0"
  let ?v1 = "?w\<lparr>isMoving := True, roll := Some ?rl\<rparr>"
  obtain a b c where p: "position (mesh v) = Vector3 a b c" by (cases "position (mesh v)")
  have s0: "step r d (v, i) = Inr (?v1, i + 1)"
    using assms(1,2) va(1) startRoll_Some [of r i vec ax ?w] by (simp add: step_idle_start)
  have ind: "in_dirs ?rl" using va(2) by (simp add: in_dirs_def started_def)
  have pv: "pivot ?rl = Vector3 (vx (position (mesh v)) + vx (direction ?rl) * (sizeV v / 2))
                                (vy (position (mesh v)) - sizeV v / 2)
                                (vz (position (mesh v)) + vz (direction ?rl) * (sizeV v / 2))"
    using va(2) by (auto simp: started_def p dirs_def)
  have sc: "direction ?rl = Vector3 1 0 0 \<and> pivot ?rl = Vector3 (9 / 2) (- 1 / 2) 2
          \<and> (\<exists>v2. steps r (d # ds @ [d']) (v, i) = Inr (v2, i + 2)
                         \<and> \<not> isMoving v2 \<and> position (mesh v2) = Vector3 5 0 2)"
    if h: "position (mesh v) = Vector3 4 0 2" "sizeV v = 1" "r i < 1 / 4" "length ds = 16"
  proof -
    have "\<lfloor>r i * 4\<rfloor> = 0" using assms(3) h(3) by (simp add: floor_eq_iff)
    then have v: "vec = Vector3 1 0 0" "ax = Vector3 0 0 (-1)"
      using va(1) by (simp_all add: dirs_def nth_opt_def)
    have d1: "direction ?rl = Vector3 1 0 0" by (simp add: started_def v)
    have p1: "pivot ?rl = Vector3 (9 / 2) (- 1 / 2) 2" by (simp add: started_def v h)
    have f: "steps r (d # ds @ [d']) (v, i) =
           Inr (despawnCheck r (snapped r ?w i vec ax, i + 2))"
      using full_roll [of v d r i vec ax ds d'] assms(1,2) va(1) h(4) by simp
    have sp: "position (mesh (snapped r ?w i vec ax)) = Vector3 5 0 2"
      by (simp add: snapped_position h v)
    have dc: "despawnCheck r (snapped r ?w i vec ax, i + 2) = (snapped r ?w i vec ax, i + 2)"
      by (simp add: despawnCheck_def sp spawnRange_def)
    have nm: "\<not> isMoving (snapped r ?w i vec ax)" by (simp add: snapped_def)
    show ?thesis using d1 p1 f dc sp nm by simp
  qed
  have mv: "isMoving ?v1" and ro: "roll ?v1 = Some ?rl" by simp_all
  have rp: "rollProgress ?rl = 0" and st: "startPosition ?rl = position (mesh v)"
    and sq: "startQuaternion ?rl = quaternion (mesh v)"
    by (simp_all add: started_def)
  show ?thesis
    using s0 mv ro ind rp st sq pv sc by blast
qed

theorem startRoll_pivot_witness:
  "\<not> isMoving (voxel_idle_at (Vector3 4 0 2)) \<and> waitTimer (voxel_idle_at (Vector3 4 0 2)) \<le> 16
   \<and> position (mesh (voxel_idle_at (Vector3 4 0 2))) = Vector3 4 0 2
   \<and> sizeV (voxel_idle_at (Vector3 4 0 2)) = 1 \<and> (0::real) < 1 / 4
   \<and> length (replicate 16 (16::real)) = 16
   \<and> (\<exists>v1 rl. step (\<lambda>i. 0) 16 (voxel_idle_at (Vector3 4 0 2), 0) = Inr (v1, 1)
         \<and> roll v1 = Some rl \<and> pivot rl = Vector3 (9 / 2) (- 1 / 2) 2)
   \<and> (\<exists>v2. steps (\<lambda>i. 0) (16 # replicate 16 16 @ [16]) (voxel_idle_at (Vector3 4 0 2), 0)
               = Inr (v2, 2)
          \<and> position (mesh v2) = Vector3 5 0 2)"
  using startRoll_pivot [of "voxel_idle_at (Vector3 4 0 2)" 16 "\<lambda>i. 0" 0 "replicate 16 16" 16]
  by (auto simp: voxel_idle_at_def)

section \<open>Recycling\<close>

text \<open>
  Claim C5. In the call of \<^verbatim>\<open>animateRoll\<close> that ends a roll: if the snapped position
  \<open>startPosition + direction\<close> has \<open>|x|\<close> or \<open>|z|\<close> above the spawn range, the call returns the
  voxel at a new position drawn from the random source, with integer coordinates and
  \<open>|x|\<close> and \<open>|z|\<close> within the spawn range, a wait time drawn after it, and the identity
  quaternion; otherwise it returns the voxel at the snapped position.
\<close>

theorem despawn_recycles:
  assumes "valid_random r" "roll v = Some rl" "rollProgress rl + moveSpeed \<ge> 1"
  shows "\<exists>v' i'. animateRoll r (v, i) = Inr (v', i') \<and> \<not> isMoving v'
          \<and> (if out_of_range (add (startPosition rl) (direction rl))
              then i' = i + 4
                 \<and> position (mesh v') =
                     Vector3 (Math_floor (fl (fl (r (i + 1) - 1 / 2) * spawnRange))) 0
                             (Math_floor (fl (fl (r (i + 2) - 1 / 2) * spawnRange)))
                 \<and> vx (position (mesh v')) \<in> \<int> \<and> vz (position (mesh v')) \<in> \<int>
                 \<and> lattice (position (mesh v'))
                 \<and> \<bar>vx (position (mesh v'))\<bar> \<le> spawnRange
                 \<and> \<bar>vz (position (mesh v'))\<bar> \<le> spawnRange
                 \<and> \<not> out_of_range (position (mesh v'))
                 \<and> waitTimer v' = fl (r (i + 3) * maxWaitTime)
                 \<and> 0 \<le> waitTimer v' \<and> waitTimer v' < maxWaitTime
                 \<and> quaternion (mesh v') = Quaternion 0 0 0 1
              else i' = i + 1
                 \<and> position (mesh v') = add (startPosition rl) (direction rl)
                 \<and> quaternion (mesh v') =
                     multiplyQuaternions (setFromAxisAngle (axis rl) (pi / 2)) (startQuaternion rl)
                 \<and> waitTimer v' = fl (r i * maxWaitTime))"
proof -
  let ?rl = "advance rl"
  obtain v1 where e: "endStep r ?rl (v\<lparr>roll := Some ?rl\<rparr>, i) = (v1, i + 1)"
    and p1: "position (mesh v1) = add (startPosition rl) (direction rl)"
    and q1: "quaternion (mesh v1) =
        multiplyQuaternions (setFromAxisAngle (axis rl) (pi / 2)) (startQuaternion rl)"
    and w1: "waitTimer v1 = fl (r i * maxWaitTime)" and m1: "\<not> isMoving v1"
    by (simp add: endStep_def advance_def premultiply_def Let_def)
  have a: "animateRoll r (v, i) = Inr (despawnCheck r (v1, i + 1))"
    using animateRoll_end [OF assms(2,3)] e by simp
  have dc: "despawnCheck r (v1, i + 1) =
      (if out_of_range (add (startPosition rl) (direction rl)) then reset r (v1, i + 1)
       else (v1, i + 1))"
    by (simp add: despawnCheck_def out_of_range_def p1)
  show ?thesis
  proof (cases "out_of_range (add (startPosition rl) (direction rl))")
    case True
    have u: "0 \<le> r (i + 1)" "r (i + 1) \<le> 1 - 1 / 2 ^ 53" "0 \<le> r (i + 2)"
      "r (i + 2) \<le> 1 - 1 / 2 ^ 53" "0 \<le> r (i + 3)" "r (i + 3) \<le> 1 - 1 / 2 ^ 53"
      using valid_randomD [OF assms(1)] by simp_all
    have bx: "\<bar>Math_floor (fl (fl (r (i + 1) - 1 / 2) * 90))\<bar> \<le> 90"
      using Math_floor_spawn_bounds [OF u(1,2)] by linarith
    have bz: "\<bar>Math_floor (fl (fl (r (i + 2) - 1 / 2) * 90))\<bar> \<le> 90"
      using Math_floor_spawn_bounds [OF u(3,4)] by linarith
    have wt: "0 \<le> fl (r (i + 3) * 4000)" "fl (r (i + 3) * 4000) < 4000"
      using fl_wait [OF u(5,6)] by simp_all
    have rs: "reset r (v1, i + 1) =
       (v1\<lparr>mesh := (mesh v1)\<lparr>position :=
                          Vector3 (Math_floor (fl (fl (r (i + 1) - 1 / 2) * 90))) 0
                                  (Math_floor (fl (fl (r (i + 2) - 1 / 2) * 90))),
                       quaternion := Quaternion 0 0 0 1\<rparr>,
        waitTimer := fl (r (i + 3) * 4000), isMoving := False\<rparr>, i + 4)"
      by (simp add: reset_fields add.assoc numeral_3_eq_3)
    show ?thesis
      unfolding a dc rs using True bx bz wt
      by (simp add: lattice_def is_integer_def Math_floor_Ints spawnRange_def maxWaitTime_def
          out_of_range_def)
  next
    case False
    then show ?thesis using a dc p1 q1 w1 m1 by simp
  qed
qed

theorem despawn_recycles_witness:
  "valid_random (\<lambda>i. 3 / 4) \<and> roll voxel_edge = Some roll_edge
   \<and> rollProgress roll_edge + moveSpeed \<ge> 1
   \<and> out_of_range (add (startPosition roll_edge) (direction roll_edge))
   \<and> (\<exists>v'. animateRoll (\<lambda>i. 3 / 4) (voxel_edge, 0) = Inr (v', 4)
          \<and> position (mesh v') = Vector3 22 0 22 \<and> waitTimer v' = 3000
          \<and> quaternion (mesh v') = Quaternion 0 0 0 1)"
proof -
  have vr: "valid_random (\<lambda>i. 3 / 4)" by (simp add: valid_random_def)
  have ro: "roll voxel_edge = Some roll_edge" by (simp add: voxel_edge_def)
  have ge: "rollProgress roll_edge + moveSpeed \<ge> 1" by (simp add: roll_edge_def moveSpeed_def)
  have oor: "out_of_range (add (startPosition roll_edge) (direction roll_edge))"
    by (simp add: roll_edge_def out_of_range_def spawnRange_def)
  have mf: "Math_floor (45 / 2) = 22" by (simp add: Math_floor_def)
  obtain v' i' where a: "animateRoll (\<lambda>i. 3 / 4) (voxel_edge, 0) = Inr (v', i')"
    and b: "i' = 0 + 4"
    and c: "position (mesh v') =
              Vector3 (Math_floor (fl (fl (3 / 4 - 1 / 2) * spawnRange))) 0
                      (Math_floor (fl (fl (3 / 4 - 1 / 2) * spawnRange)))"
    and d: "waitTimer v' = fl (3 / 4 * maxWaitTime)"
    and e: "quaternion (mesh v') = Quaternion 0 0 0 1"
    using despawn_recycles [OF vr ro ge, of 0] oor by auto
  have c': "position (mesh v') = Vector3 22 0 22"
    using c unfolding spawnRange_def fl_exact_examples(1,2) mf .
  have d': "waitTimer v' = 3000"
    using d unfolding maxWaitTime_def fl_exact_examples(3) .
  have a': "animateRoll (\<lambda>i. 3 / 4) (voxel_edge, 0) = Inr (v', 4)" using a b by simp
  show ?thesis using vr ro ge oor a' c' d' e by blast
qed

section \<open>The animation loop and the elapsed time\<close>






section \<open>Replaying a run\<close>

lemma reset_index: "snd (reset r (v, i)) = i + 3"
  by (simp add: reset_def Let_def)

lemma endStep_index: "snd (endStep r rl (v, i)) = i + 1"
  by (simp add: endStep_def Let_def)

lemma despawnCheck_index: "i \<le> snd (despawnCheck r (v, i))"
  by (simp add: despawnCheck_def reset_index)

lemma animateRoll_index:
  assumes "animateRoll r (v, i) = Inr (v', i')"
  shows "i \<le> i'"
proof -
  from assms obtain rl where rl: "roll v = Some rl"
    by (cases "roll v") (simp_all add: animateRoll_def)
  show ?thesis
  proof (cases "rollProgress rl + moveSpeed \<ge> 1")
    case False
    then show ?thesis using assms rl by (simp add: animateRoll_def Let_def)
  next
    case True
    obtain v1 where e: "endStep r (advance rl) (v\<lparr>roll := Some (advance rl)\<rparr>, i) = (v1, i + 1)"
      by (simp add: endStep_def Let_def)
    have "(v', i') = despawnCheck r (v1, i + 1)"
      using assms animateRoll_end [OF rl True] e by simp
    then have "i' = snd (despawnCheck r (v1, i + 1))" by (metis snd_conv)
    then show ?thesis using despawnCheck_index [of "i + 1" r v1] by linarith
  qed
qed

lemma startRoll_cases:
  assumes "startRoll r (v, i) = Inr (v', i')"
  shows "\<exists>vec ax. nth_opt dirs \<lfloor>r i * 4\<rfloor> = Some (vec, ax)"
proof (cases "nth_opt dirs \<lfloor>r i * 4\<rfloor>")
  case None
  then show ?thesis using assms by (simp add: startRoll_def)
next
  case (Some m)
  then show ?thesis by (cases m) simp
qed

lemma startRoll_index:
  assumes "startRoll r (v, i) = Inr (v', i')"
  shows "i' = i + 1"
proof -
  obtain vec ax where "nth_opt dirs \<lfloor>r i * 4\<rfloor> = Some (vec, ax)"
    using startRoll_cases [OF assms] by blast
  then show ?thesis using assms startRoll_Some [of r i vec ax v] by simp
qed

lemma step_index:
  assumes "step r d (v, i) = Inr (v', i')"
  shows "i \<le> i'"
proof (cases "isMoving v")
  case True
  then show ?thesis using assms animateRoll_index by (simp add: step_def)
next
  case False
  show ?thesis
  proof (cases "waitTimer v - d \<le> 0")
    case True
    then have "startRoll r (v\<lparr>waitTimer := waitTimer v - d\<rparr>, i) = Inr (v', i')"
      using False assms by (simp add: step_def Let_def)
    then have "i' = i + 1" by (rule startRoll_index)
    then show ?thesis by simp
  next
    case f: False
    then show ?thesis using False assms by (simp add: step_def Let_def)
  qed
qed

lemma startRoll_window:
  assumes "startRoll r1 (v, i) = Inr (v', i')" "agree r1 r2 i i'"
  shows "startRoll r2 (v, i) = Inr (v', i')"
proof -
  have i': "i' = i + 1" using assms(1) by (rule startRoll_index)
  then have e: "r2 i = r1 i" using assms(2) by (simp add: agree_def)
  have "startRoll r2 (v, i) = startRoll r1 (v, i)"
    unfolding startRoll_def by (simp add: e)
  then show ?thesis using assms(1) by simp
qed

lemma reset_window:
  assumes "r2 i = r1 i" "r2 (i + 1) = r1 (i + 1)" "r2 (i + 2) = r1 (i + 2)"
  shows "reset r2 (v, i) = reset r1 (v, i)"
  using assms by (simp add: reset_def)

lemma animateRoll_window:
  assumes "animateRoll r1 (v, i) = Inr (v', i')" "agree r1 r2 i i'"
  shows "animateRoll r2 (v, i) = Inr (v', i')"
proof -
  from assms(1) obtain rl where rl: "roll v = Some rl"
    by (cases "roll v") (simp_all add: animateRoll_def)
  show ?thesis
  proof (cases "rollProgress rl + moveSpeed \<ge> 1")
    case False
    then have "animateRoll r2 (v, i) = animateRoll r1 (v, i)"
      using rl by (simp add: animateRoll_mid)
    then show ?thesis using assms(1) by simp
  next
    case True
    let ?rl = "advance rl"
    let ?v = "v\<lparr>roll := Some ?rl\<rparr>"
    have a1: "animateRoll r1 (v, i) = Inr (despawnCheck r1 (endStep r1 ?rl (?v, i)))"
      and a2: "animateRoll r2 (v, i) = Inr (despawnCheck r2 (endStep r2 ?rl (?v, i)))"
      using animateRoll_end [OF rl True] by simp_all
    obtain v1 where e1: "endStep r1 ?rl (?v, i) = (v1, i + 1)"
      by (simp add: endStep_def Let_def)
    have r1: "despawnCheck r1 (v1, i + 1) = (v', i')"
      using assms(1) a1 e1 by simp
    have ge: "i + 1 \<le> i'"
      using despawnCheck_index [of "i + 1" r1 v1] r1 by simp
    then have "r2 i = r1 i" using assms(2) by (simp add: agree_def)
    then have e2: "endStep r2 ?rl (?v, i) = (v1, i + 1)"
      using e1 by (simp add: endStep_def Let_def)
    show ?thesis
    proof (cases "\<bar>vx (position (mesh v1))\<bar> > spawnRange \<or> \<bar>vz (position (mesh v1))\<bar> > spawnRange")
      case False
      then have "despawnCheck r2 (v1, i + 1) = despawnCheck r1 (v1, i + 1)"
        by (simp add: despawnCheck_def)
      then show ?thesis using a2 e2 r1 by simp
    next
      case True
      then have d1: "despawnCheck r1 (v1, i + 1) = reset r1 (v1, i + 1)"
        and d2: "despawnCheck r2 (v1, i + 1) = reset r2 (v1, i + 1)"
        by (simp_all add: despawnCheck_def)
      have "reset r1 (v1, i + 1) = (v', i')" using r1 d1 by simp
      then have "snd (reset r1 (v1, i + 1)) = i'" by (simp only: snd_conv)
      then have "i' = i + 1 + 3" by (simp only: reset_index)
      then have "r2 (i + 1) = r1 (i + 1)" "r2 (i + 1 + 1) = r1 (i + 1 + 1)"
        "r2 (i + 1 + 2) = r1 (i + 1 + 2)"
        using assms(2) by (simp_all add: agree_def)
      then have "reset r2 (v1, i + 1) = reset r1 (v1, i + 1)" by (rule reset_window)
      then show ?thesis using a2 e2 d1 d2 r1 by simp
    qed
  qed
qed

lemma step_window:
  assumes "step r1 d (v, i) = Inr (v', i')" "agree r1 r2 i i'"
  shows "step r2 d (v, i) = Inr (v', i')"
proof (cases "isMoving v")
  case True
  then show ?thesis using assms animateRoll_window [of r1 v i v' i' r2] by (simp add: step_def)
next
  case False
  show ?thesis
  proof (cases "waitTimer v - d \<le> 0")
    case True
    then show ?thesis
      using False assms startRoll_window [of r1 "v\<lparr>waitTimer := waitTimer v - d\<rparr>" i v' i' r2]
      by (simp add: step_def Let_def)
  next
    case f: False
    then have "d < waitTimer v" by simp
    then have "step r2 d (v, i) = step r1 d (v, i)"
      using False by (simp add: step_idle_wait)
    then show ?thesis using assms(1) by simp
  qed
qed

lemma agree_sub: "agree r1 r2 i i' \<Longrightarrow> i \<le> j \<Longrightarrow> j' \<le> i' \<Longrightarrow> agree r1 r2 j j'"
  by (simp add: agree_def)

lemma steps_index: "steps r ds (v, i) = Inr (v', i') \<Longrightarrow> i \<le> i'"
proof (induction ds arbitrary: v i)
  case Nil
  then show ?case by simp
next
  case (Cons d ds)
  from Cons.prems obtain v1 i1 where s: "step r d (v, i) = Inr (v1, i1)"
    and t: "steps r ds (v1, i1) = Inr (v', i')"
    by (auto split: sum.splits)
  show ?case using step_index [OF s] Cons.IH [OF t] by simp
qed

lemma steps_window:
  "steps r1 ds (v, i) = Inr (v', i') \<Longrightarrow> agree r1 r2 i i' \<Longrightarrow>
     steps r2 ds (v, i) = Inr (v', i')"
proof (induction ds arbitrary: v i)
  case Nil
  then show ?case by simp
next
  case (Cons d ds)
  from Cons.prems(1) obtain v1 i1 where s: "step r1 d (v, i) = Inr (v1, i1)"
    and t: "steps r1 ds (v1, i1) = Inr (v', i')"
    by (auto split: sum.splits)
  have le: "i \<le> i1" "i1 \<le> i'" using step_index [OF s] steps_index [OF t] by simp_all
  have "step r2 d (v, i) = Inr (v1, i1)"
    using step_window [OF s] agree_sub [OF Cons.prems(2)] le by simp
  moreover have "steps r2 ds (v1, i1) = Inr (v', i')"
    using Cons.IH [OF t] agree_sub [OF Cons.prems(2)] le by simp
  ultimately show ?case by simp
qed

lemma steps_take:
  assumes "steps r ds (v, i) = Inr (v', i')"
  shows "\<exists>v1 i1. steps r (take k ds) (v, i) = Inr (v1, i1) \<and> i1 \<le> i'"
proof -
  have "steps r (take k ds @ drop k ds) (v, i) = Inr (v', i')" using assms by simp
  then obtain v1 i1 where a: "steps r (take k ds) (v, i) = Inr (v1, i1)"
    and b: "steps r (drop k ds) (v1, i1) = Inr (v', i')"
    unfolding steps_append by (auto split: sum.splits)
  show ?thesis using a steps_index [OF b] by simp
qed

text \<open>
  Claim C8. A run of \<^verbatim>\<open>step\<close> over a list of time deltas is determined by the initial state,
  the deltas and the values the random source yields during the run: a second source that
  yields the same values for the draws of the run gives the same state after every prefix of
  the deltas, positions and orientations included, and the same final state and draw count.
  Two sources that yield the same values throughout give the same result for every run,
  also one that stops with an exception.
\<close>

theorem replay_deterministic:
  "(steps r1 ds (v, i) = Inr (v', i') \<and> agree r1 r2 i i' \<longrightarrow>
      steps r2 (take k ds) (v, i) = steps r1 (take k ds) (v, i)
      \<and> steps r2 ds (v, i) = Inr (v', i'))
   \<and> ((\<forall>j. r2 j = r1 j) \<longrightarrow> steps r2 ds (v, i) = steps r1 ds (v, i))"
proof (intro conjI impI)
  assume h: "steps r1 ds (v, i) = Inr (v', i') \<and> agree r1 r2 i i'"
  then have s: "steps r1 ds (v, i) = Inr (v', i')" and g: "agree r1 r2 i i'" by simp_all
  obtain v1 i1 where a: "steps r1 (take k ds) (v, i) = Inr (v1, i1)" and le: "i1 \<le> i'"
    using steps_take [OF s] by blast
  have "agree r1 r2 i i1" using agree_sub [OF g] le by simp
  then have "steps r2 (take k ds) (v, i) = Inr (v1, i1)" using steps_window [OF a] by simp
  then show "steps r2 (take k ds) (v, i) = steps r1 (take k ds) (v, i)" using a by simp
  show "steps r2 ds (v, i) = Inr (v', i')" using steps_window [OF s g] .
next
  assume "\<forall>j. r2 j = r1 j"
  then have "r2 = r1" by (simp add: fun_eq_iff)
  then show "steps r2 ds (v, i) = steps r1 ds (v, i)" by simp
qed

theorem replay_deterministic_witness:
  "steps source_a (16 # replicate 16 16 @ [16]) (voxel_idle_at (Vector3 4 0 2), 0)
      = Inr (snapped source_a (voxel_idle_at (Vector3 4 0 2)
                 \<lparr>waitTimer := waitTimer (voxel_idle_at (Vector3 4 0 2)) - 16\<rparr>) 0
               (Vector3 1 0 0) (Vector3 0 0 (-1)), 2)
   \<and> agree source_a source_b 0 2
   \<and> source_a 2 \<noteq> source_b 2
   \<and> steps source_b (take 5 (16 # replicate 16 16 @ [16])) (voxel_idle_at (Vector3 4 0 2), 0)
      = steps source_a (take 5 (16 # replicate 16 16 @ [16])) (voxel_idle_at (Vector3 4 0 2), 0)
   \<and> steps source_b (16 # replicate 16 16 @ [16]) (voxel_idle_at (Vector3 4 0 2), 0)
      = Inr (snapped source_a (voxel_idle_at (Vector3 4 0 2)
                 \<lparr>waitTimer := waitTimer (voxel_idle_at (Vector3 4 0 2)) - 16\<rparr>) 0
               (Vector3 1 0 0) (Vector3 0 0 (-1)), 2)"
proof -
  let ?v = "voxel_idle_at (Vector3 4 0 2)"
  let ?s = "snapped source_a (?v\<lparr>waitTimer := waitTimer ?v - 16\<rparr>) 0
               (Vector3 1 0 0) (Vector3 0 0 (-1))"
  have n: "nth_opt dirs \<lfloor>source_a 0 * 4\<rfloor> = Some (Vector3 1 0 0, Vector3 0 0 (-1))"
    by (simp add: source_a_def nth_opt_def dirs_def)
  have h1: "\<not> isMoving ?v" and h2: "waitTimer ?v \<le> 16"
    by (simp_all add: voxel_idle_at_def)
  have h4: "length (replicate 16 (16::real)) = 16" by simp
  have two: "(0::nat) + 2 = 2" by simp
  have f0: "steps source_a (16 # replicate 16 16 @ [16]) (?v, 0)
      = Inr (despawnCheck source_a (?s, 0 + 2))"
    using h1 h2 n h4 by (rule full_roll)
  have d: "despawnCheck source_a (?s, 2) = (?s, 2)"
    by (simp add: despawnCheck_def snapped_position voxel_idle_at_def spawnRange_def)
  have f: "steps source_a (16 # replicate 16 16 @ [16]) (?v, 0) = Inr (?s, 2)"
    using f0 unfolding two d .
  have a: "agree source_a source_b 0 2"
    by (simp add: agree_def source_a_def source_b_def)
  have ne: "source_a 2 \<noteq> source_b 2"
    by (simp add: source_a_def source_b_def)
  show ?thesis
    using replay_deterministic [of source_a "16 # replicate 16 16 @ [16]" ?v 0 ?s 2 source_b 5]
      f a ne by blast
qed

section \<open>Orientation and position at rest\<close>

lemma quarter_turns_identity: "quarter_turns (Quaternion 0 0 0 1)"
  unfolding quarter_turns_def by (rule exI [of _ "[]"]) simp

lemma quarter_turns_step:
  assumes "quarter_turn g" "quarter_turns q"
  shows "quarter_turns (multiplyQuaternions g q)"
proof -
  from assms(2) obtain gs where gs: "list_all quarter_turn gs" "q = compose gs"
    by (auto simp: quarter_turns_def)
  have "list_all quarter_turn (g # gs)" using assms(1) gs(1) by simp
  moreover have "multiplyQuaternions g q = compose (g # gs)" using gs(2) by simp
  ultimately show ?thesis unfolding quarter_turns_def by blast
qed

lemma in_dirs_quarter_turn: "in_dirs rl \<Longrightarrow> quarter_turn (setFromAxisAngle (axis rl) (pi / 2))"
  unfolding in_dirs_def quarter_turn_def by blast

lemma lattice_add_dir:
  assumes "lattice p" "in_dirs rl"
  shows "lattice (add p (direction rl))"
proof -
  obtain a b c where p: "p = Vector3 a b c" by (cases p)
  have i: "a \<in> \<int>" "b \<in> \<int>" "c \<in> \<int>"
    using assms(1) by (simp_all add: p lattice_def is_integer_def)
  show ?thesis
    using dirs_cases [OF assms(2)] i
    by (auto simp: p lattice_def is_integer_def)
qed

lemma reset_rest:
  "\<not> isMoving (fst (reset r (v, i)))"
  "lattice (position (mesh (fst (reset r (v, i)))))"
  "quaternion (mesh (fst (reset r (v, i)))) = Quaternion 0 0 0 1"
  by (simp_all add: reset_fields lattice_def is_integer_def Math_floor_Ints)

lemma reset_inv: "voxel_inv (fst (reset r (v, i)))"
  using reset_rest [of r v i] by (simp add: voxel_inv_def rest_inv_def quarter_turns_identity)

lemma RollingVoxel_inv: "voxel_inv (fst (RollingVoxel r i))"
  unfolding RollingVoxel_def Let_def by (rule reset_inv)

lemma startRoll_inv:
  assumes "0 \<le> r i" "r i < 1" "\<not> isMoving v" "rest_inv (position (mesh v)) (quaternion (mesh v))"
  shows "\<exists>v'. startRoll r (v, i) = Inr (v', i + 1) \<and> voxel_inv v'"
proof -
  obtain vec ax where va: "nth_opt dirs \<lfloor>r i * 4\<rfloor> = Some (vec, ax)" "(vec, ax) \<in> set dirs"
    using nth_opt_dirs [OF assms(1,2)] by blast
  let ?v = "v\<lparr>isMoving := True, roll := Some (started v vec ax 0)\<rparr>"
  have "startRoll r (v, i) = Inr (?v, i + 1)" using va(1) by (rule startRoll_Some)
  moreover have "voxel_inv ?v"
    using va(2) assms(4) by (simp add: voxel_inv_def in_dirs_def started_def)
  ultimately show ?thesis by blast
qed

lemma animateRoll_inv:
  assumes "isMoving v" "voxel_inv v"
  shows "\<exists>v' i'. animateRoll r (v, i) = Inr (v', i') \<and> voxel_inv v'"
proof -
  from assms obtain rl where rl: "roll v = Some rl" and d: "in_dirs rl"
    and ri: "rest_inv (startPosition rl) (startQuaternion rl)"
    by (auto simp: voxel_inv_def)
  show ?thesis
  proof (cases "rollProgress rl + moveSpeed \<ge> 1")
    case False
    let ?v = "rollingMath (advance rl) (v\<lparr>roll := Some (advance rl)\<rparr>)"
    have "animateRoll r (v, i) = Inr (?v, i)" using rl False by (simp add: animateRoll_mid)
    moreover have "voxel_inv ?v"
      using assms(1) d ri by (simp add: voxel_inv_def rollingMath_def Let_def advance_def in_dirs_def)
    ultimately show ?thesis by blast
  next
    case True
    obtain v1 where e: "endStep r (advance rl) (v\<lparr>roll := Some (advance rl)\<rparr>, i) = (v1, i + 1)"
      and p: "position (mesh v1) = add (startPosition rl) (direction rl)"
      and q: "quaternion (mesh v1) =
                 multiplyQuaternions (setFromAxisAngle (axis rl) (pi / 2)) (startQuaternion rl)"
      and m: "\<not> isMoving v1"
      by (simp add: endStep_def advance_def premultiply_def Let_def)
    have a: "animateRoll r (v, i) = Inr (despawnCheck r (v1, i + 1))"
      using animateRoll_end [OF rl True] e by simp
    have i1: "voxel_inv v1"
      using m p q ri d
      by (simp add: voxel_inv_def rest_inv_def lattice_add_dir quarter_turns_step
          in_dirs_quarter_turn)
    have "voxel_inv (fst (despawnCheck r (v1, i + 1)))"
      using i1 reset_inv [of r v1 "i + 1"] by (simp add: despawnCheck_def)
    then show ?thesis using a by (metis prod.collapse)
  qed
qed

lemma step_inv:
  assumes "valid_random r" "voxel_inv v"
  shows "\<exists>v' i'. step r d (v, i) = Inr (v', i') \<and> voxel_inv v'"
proof (cases "isMoving v")
  case True
  then show ?thesis using animateRoll_inv [OF True assms(2)] by (simp add: step_moving)
next
  case False
  let ?w = "v\<lparr>waitTimer := waitTimer v - d\<rparr>"
  have w: "\<not> isMoving ?w" "rest_inv (position (mesh ?w)) (quaternion (mesh ?w))"
    using False assms(2) by (simp_all add: voxel_inv_def)
  show ?thesis
  proof (cases "waitTimer v \<le> d")
    case True
    have u: "0 \<le> r i" "r i < 1" using valid_randomD [OF assms(1)] by simp_all
    show ?thesis
      using startRoll_inv [of r i ?w] u w False True by (auto simp: step_idle_start)
  next
    case f: False
    then have "step r d (v, i) = Inr (?w, i)" using False by (simp add: step_idle_wait)
    moreover have "voxel_inv ?w" using w by (simp add: voxel_inv_def)
    ultimately show ?thesis by blast
  qed
qed

lemma steps_inv:
  assumes "valid_random r"
  shows "voxel_inv v \<Longrightarrow> \<exists>v' i'. steps r ds (v, i) = Inr (v', i') \<and> voxel_inv v'"
proof (induction ds arbitrary: v i)
  case Nil
  then show ?case by simp
next
  case (Cons d ds)
  obtain v1 i1 where s: "step r d (v, i) = Inr (v1, i1)" and v1: "voxel_inv v1"
    using step_inv [OF assms Cons.prems] by blast
  show ?case using Cons.IH [OF v1] s by simp
qed

lemma voxel_inv_idle:
  assumes "voxel_inv v" "\<not> isMoving v"
  shows "lattice (position (mesh v)) \<and> quarter_turns (quaternion (mesh v))"
  using assms by (simp add: voxel_inv_def rest_inv_def)

text \<open>
  Claim C4, as the code has it. \<^verbatim>\<open>reset\<close> leaves the voxel at rest at integer coordinates
  with the identity orientation, and every \<^verbatim>\<open>step\<close> keeps the invariant: a voxel at rest
  is at integer coordinates, and its orientation is the identity with one quarter-turn
  quaternion multiplied onto it for every roll completed since the last \<^verbatim>\<open>reset\<close>. This
  holds after the constructor and after any number of steps. The orientation need not be
  a rotation about a single world axis.
\<close>

theorem idle_on_lattice_quarter_turns:
  assumes "valid_random r"
  shows "\<not> isMoving (fst (reset r (v, i)))
       \<and> lattice (position (mesh (fst (reset r (v, i)))))
       \<and> quaternion (mesh (fst (reset r (v, i)))) = Quaternion 0 0 0 1
       \<and> voxel_inv (fst (reset r (v, i)))
       \<and> voxel_inv (fst (RollingVoxel r i))
       \<and> (voxel_inv w \<longrightarrow> (\<exists>w' j'. step r d (w, j) = Inr (w', j') \<and> voxel_inv w'))
       \<and> (voxel_inv w \<longrightarrow>
            (\<exists>v' i'. steps r ds (w, j) = Inr (v', i') \<and> voxel_inv v'
               \<and> (\<not> isMoving v' \<longrightarrow>
                     lattice (position (mesh v')) \<and> quarter_turns (quaternion (mesh v')))))"
proof -
  have s: "\<exists>v' i'. steps r ds (w, j) = Inr (v', i') \<and> voxel_inv v'
               \<and> (\<not> isMoving v' \<longrightarrow>
                     lattice (position (mesh v')) \<and> quarter_turns (quaternion (mesh v')))"
    if w: "voxel_inv w"
  proof -
    obtain v' i' where a: "steps r ds (w, j) = Inr (v', i')" and b: "voxel_inv v'"
      using steps_inv [OF assms w] by blast
    show ?thesis using a b voxel_inv_idle [OF b] by blast
  qed
  show ?thesis
    using reset_rest [of r v i] reset_inv [of r v i] RollingVoxel_inv [of r i]
      step_inv [OF assms, of w d j] s
    by blast
qed

lemma spawned_eq: "RollingVoxel source_c 0 = (spawned, 16)"
proof -
  have a: "fl (fl (0 - 1 / 2) * 90) = - 45"
  proof -
    have "fl (0 - 1 / 2) = - 1 / 2" using fl_half by simp
    moreover have "fl (- 45) = - 45" using fl_32 [of "- 45"] by (simp add: round_even_def)
    ultimately show ?thesis by simp
  qed
  have c: "nth_opt colors \<lfloor>fl (0 * real (length colors))\<rfloor> = Some 0xFFC72C"
    by (simp add: fl_0 nth_opt_def colors_def)
  show ?thesis
    using a c
    by (simp add: RollingVoxel_def reset_fields source_c_def spawned_def Math_floor_def fl_0
        Let_def)
qed

lemma spawned_rest:
  "\<not> isMoving spawned" "lattice (position (mesh spawned))"
  "world_axis_turn (quaternion (mesh spawned))"
proof -
  show "\<not> isMoving spawned" by (simp add: spawned_def)
  show "lattice (position (mesh spawned))"
    by (simp add: spawned_def lattice_def is_integer_def)
  have "Quaternion 0 0 0 1 = setFromAxisAngle (Vector3 1 0 0) (of_int 0 * (pi / 2))"
    by (simp add: Let_def)
  then have "\<exists>k::int. Quaternion 0 0 0 1 = setFromAxisAngle (Vector3 1 0 0) (of_int k * (pi / 2))"
    by (rule exI)
  then show "world_axis_turn (quaternion (mesh spawned))"
    unfolding world_axis_turn_def world_axes_def spawned_def by simp
qed

lemma one_roll_run: "steps source_c frames (spawned, 16) = Inr (one_roll, 18)"
proof -
  have n: "nth_opt dirs \<lfloor>source_c 16 * 4\<rfloor> = Some (Vector3 1 0 0, Vector3 0 0 (- 1))"
    by (simp add: source_c_def nth_opt_def dirs_def)
  have h1: "\<not> isMoving spawned" and h2: "waitTimer spawned \<le> 16"
    by (simp_all add: spawned_def)
  have h4: "length (replicate 16 (16::real)) = 16" by simp
  have f0: "steps source_c (16 # replicate 16 16 @ [16]) (spawned, 16)
      = Inr (despawnCheck source_c (one_roll, 16 + 2))"
    unfolding one_roll_def using h1 h2 n h4 by (rule full_roll)
  have d: "despawnCheck source_c (one_roll, 16 + 2) = (one_roll, 18)"
    by (simp add: despawnCheck_def one_roll_def snapped_position spawned_def spawnRange_def)
  show ?thesis using f0 unfolding d frames_def .
qed

lemma one_roll_pose:
  "\<not> isMoving one_roll" "waitTimer one_roll \<le> 16"
  "position (mesh one_roll) = Vector3 (- 44) 0 (- 45)"
  "quaternion (mesh one_roll) = Quaternion 0 0 (- sin (pi / 4)) (cos (pi / 4))"
  by (simp_all add: one_roll_def snapped_def source_c_def spawned_def fl_0 Let_def)

lemma two_rolls_run: "steps source_c frames (one_roll, 18) = Inr (two_rolls, 20)"
proof -
  have n: "nth_opt dirs \<lfloor>source_c 18 * 4\<rfloor> = Some (Vector3 0 0 1, Vector3 1 0 0)"
    by (simp add: source_c_def nth_opt_def dirs_def)
  have h4: "length (replicate 16 (16::real)) = 16" by simp
  have f0: "steps source_c (16 # replicate 16 16 @ [16]) (one_roll, 18)
      = Inr (despawnCheck source_c (two_rolls, 18 + 2))"
    unfolding two_rolls_def using one_roll_pose(1,2) n h4 by (rule full_roll)
  have d: "despawnCheck source_c (two_rolls, 18 + 2) = (two_rolls, 20)"
    by (simp add: despawnCheck_def two_rolls_def snapped_position one_roll_pose(3) spawnRange_def)
  show ?thesis using f0 unfolding d frames_def .
qed

lemma two_rolls_from_spawn:
  "steps source_c (frames @ frames) (spawned, 16) = Inr (two_rolls, 20)"
  by (simp add: steps_append one_roll_run two_rolls_run)

lemma two_rolls_pose:
  "\<not> isMoving two_rolls" "position (mesh two_rolls) = Vector3 (- 44) 0 (- 44)"
  "quaternion (mesh two_rolls) =
     Quaternion (sin (pi / 4) * cos (pi / 4)) (sin (pi / 4) * sin (pi / 4))
                (- (cos (pi / 4) * sin (pi / 4))) (cos (pi / 4) * cos (pi / 4))"
  "quaternion (mesh two_rolls) = Quaternion (1 / 2) (1 / 2) (- 1 / 2) (1 / 2)"
proof -
  show "\<not> isMoving two_rolls" by (simp add: two_rolls_def snapped_def)
  show "position (mesh two_rolls) = Vector3 (- 44) 0 (- 44)"
    by (simp add: two_rolls_def snapped_position one_roll_pose(3))
  show q: "quaternion (mesh two_rolls) =
     Quaternion (sin (pi / 4) * cos (pi / 4)) (sin (pi / 4) * sin (pi / 4))
                (- (cos (pi / 4) * sin (pi / 4))) (cos (pi / 4) * cos (pi / 4))"
    by (simp add: two_rolls_def snapped_def one_roll_pose(4) Let_def)
  show "quaternion (mesh two_rolls) = Quaternion (1 / 2) (1 / 2) (- 1 / 2) (1 / 2)"
    unfolding q by (simp add: sin_45 cos_45)
qed

lemma not_world_axis_turn:
  assumes "qx q \<noteq> 0" "qy q \<noteq> 0"
  shows "\<not> world_axis_turn q"
  using assms by (auto simp: world_axis_turn_def world_axes_def Let_def)

text \<open>
  Against claim C4 as stated: the voxel \<open>spawned\<close>, at rest on the lattice with the identity
  orientation, rolls right and then forward, and then rests at (-44, 0, -44) with a
  quaternion whose components are 1/2, 1/2, -1/2 and 1/2 (up to rounding in doubles), a
  turn of 120 degrees about a diagonal. This is not a multiple of 90 degrees about any one
  world axis: such a quaternion has at most one of x, y, z different from 0.
\<close>

theorem two_rolls_not_about_one_axis:
  "valid_random source_c
   \<and> \<not> isMoving spawned \<and> lattice (position (mesh spawned))
   \<and> world_axis_turn (quaternion (mesh spawned))
   \<and> steps source_c (frames @ frames) (spawned, 16) = Inr (two_rolls, 20)
   \<and> \<not> isMoving two_rolls
   \<and> position (mesh two_rolls) = Vector3 (- 44) 0 (- 44)
   \<and> \<bar>qx (quaternion (mesh two_rolls)) - 1 / 2\<bar> < 1 / 1000
   \<and> \<bar>qy (quaternion (mesh two_rolls)) - 1 / 2\<bar> < 1 / 1000
   \<and> \<bar>qz (quaternion (mesh two_rolls)) + 1 / 2\<bar> < 1 / 1000
   \<and> \<bar>qw (quaternion (mesh two_rolls)) - 1 / 2\<bar> < 1 / 1000
   \<and> \<not> world_axis_turn (quaternion (mesh two_rolls))"
proof -
  have vr: "valid_random source_c" by (simp add: valid_random_def source_c_def)
  have n: "\<not> world_axis_turn (quaternion (mesh two_rolls))"
    by (rule not_world_axis_turn) (simp_all add: two_rolls_pose(4))
  show ?thesis
    using vr spawned_rest two_rolls_from_spawn two_rolls_pose(1,2) n
    by (simp add: two_rolls_pose(4))
qed

theorem idle_on_lattice_quarter_turns_witness:
  "valid_random source_c
   \<and> \<not> isMoving (fst (reset source_c (voxel0, 13)))
   \<and> position (mesh (fst (reset source_c (voxel0, 13)))) = Vector3 (- 45) 0 (- 45)
   \<and> voxel_inv spawned
   \<and> step source_c 16 (spawned, 16) =
        Inr (spawned\<lparr>waitTimer := waitTimer spawned - 16, isMoving := True,
               roll := Some (started (spawned\<lparr>waitTimer := waitTimer spawned - 16\<rparr>)
                               (Vector3 1 0 0) (Vector3 0 0 (- 1)) 0)\<rparr>, 17)
   \<and> steps source_c (frames @ frames) (spawned, 16) = Inr (two_rolls, 20)
   \<and> \<not> isMoving two_rolls
   \<and> lattice (position (mesh two_rolls))
   \<and> position (mesh two_rolls) = Vector3 (- 44) 0 (- 44)
   \<and> quarter_turns (quaternion (mesh two_rolls))
   \<and> quaternion (mesh two_rolls) =
       compose [setFromAxisAngle (Vector3 1 0 0) (pi / 2),
                setFromAxisAngle (Vector3 0 0 (- 1)) (pi / 2)]"
proof -
  have vr: "valid_random source_c" by (simp add: valid_random_def source_c_def)
  have sp: "voxel_inv spawned" using RollingVoxel_inv [of source_c 0] by (simp add: spawned_eq)
  have rp: "position (mesh (fst (reset source_c (voxel0, 13)))) = Vector3 (- 45) 0 (- 45)"
    using spawned_eq by (simp add: RollingVoxel_def Let_def reset_fields spawned_def)
  have n: "nth_opt dirs \<lfloor>source_c 16 * 4\<rfloor> = Some (Vector3 1 0 0, Vector3 0 0 (- 1))"
    by (simp add: source_c_def nth_opt_def dirs_def)
  have st: "step source_c 16 (spawned, 16) =
        Inr (spawned\<lparr>waitTimer := waitTimer spawned - 16, isMoving := True,
               roll := Some (started (spawned\<lparr>waitTimer := waitTimer spawned - 16\<rparr>)
                               (Vector3 1 0 0) (Vector3 0 0 (- 1)) 0)\<rparr>, 17)"
    using startRoll_Some [of source_c 16 "Vector3 1 0 0" "Vector3 0 0 (- 1)"
        "spawned\<lparr>waitTimer := waitTimer spawned - 16\<rparr>"] n
    by (simp add: step_idle_start spawned_def)
  have cq: "quaternion (mesh two_rolls) =
       compose [setFromAxisAngle (Vector3 1 0 0) (pi / 2),
                setFromAxisAngle (Vector3 0 0 (- 1)) (pi / 2)]"
    by (simp add: two_rolls_pose(3) Let_def)
  show ?thesis
    using idle_on_lattice_quarter_turns [OF vr, of voxel0 13 spawned 16 16 "frames @ frames"]
      vr sp rp st two_rolls_from_spawn two_rolls_pose(1,2) cq
    by auto
qed

end
